theory Spec2Isabelle
  imports Main "HOL-Library.List_Lexorder" "HOL-Library.Char_ord"
begin

section \<open>Entity model (internal/user/model.go, internal/user/role.go)\<close>

text \<open>
  Identifiers are natural numbers: the generated ids of a serial column are positive, and
  the repository mixes \<^verbatim>\<open>int64\<close> (struct fields) with \<^verbatim>\<open>uint\<close> (parameters).
  The value \<open>0\<close> is Go's zero value of an id that has not been generated yet.
  Time stamps are natural numbers as well, \<open>0\<close> being the zero \<^verbatim>\<open>time.Time\<close>.
  Both structs have fields called \<^verbatim>\<open>ID\<close>, \<^verbatim>\<open>Name\<close>, \<^verbatim>\<open>CreatedAt\<close> and \<^verbatim>\<open>UpdatedAt\<close>;
  the fields of \<^verbatim>\<open>Role\<close> carry the prefix \<open>Role_\<close> here.
\<close>

type_synonym time = nat

record Role =
  Role_ID :: nat
  Role_Name :: string
  Role_Description :: string
  Role_CreatedAt :: time
  Role_UpdatedAt :: time

record User =
  ID :: nat
  Name :: string
  Email :: string
  PasswordHash :: string
  Roles :: "Role list"
  CreatedAt :: time
  UpdatedAt :: time
  DeletedAt :: "time option"

definition RoleGuest :: string where "RoleGuest = ''guest''"
definition RoleUser :: string where "RoleUser = ''user''"
definition RoleAdmin :: string where "RoleAdmin = ''admin''"

text \<open>
  \<^verbatim>\<open>HasRole\<close>: the \<^verbatim>\<open>for ... range u.Roles\<close> loop that returns at the first role of that
  name. None of the three methods takes the store: they read the loaded struct only.
\<close>

fun HasRole_loop :: "Role list \<Rightarrow> string \<Rightarrow> bool" where
  "HasRole_loop [] roleName = False"
| "HasRole_loop (role # rest) roleName =
     (if Role_Name role = roleName then True else HasRole_loop rest roleName)"

definition HasRole :: "User \<Rightarrow> string \<Rightarrow> bool" where
  "HasRole u roleName = HasRole_loop (Roles u) roleName"

definition IsAdmin :: "User \<Rightarrow> bool" where
  "IsAdmin u = HasRole u RoleAdmin"

text \<open>
  \<^verbatim>\<open>GetRoleNames\<close>: \<^verbatim>\<open>make([]string, len(u.Roles))\<close> is a slice of empty strings, and the
  loop stores the name of the role at index \<open>i\<close> into slot \<open>i\<close>.
\<close>

fun GetRoleNames_loop :: "nat \<Rightarrow> Role list \<Rightarrow> string list \<Rightarrow> string list" where
  "GetRoleNames_loop i [] roleNames = roleNames"
| "GetRoleNames_loop i (role # rest) roleNames =
     GetRoleNames_loop (Suc i) rest (roleNames[i := Role_Name role])"

definition GetRoleNames :: "User \<Rightarrow> string list" where
  "GetRoleNames u = GetRoleNames_loop 0 (Roles u) (replicate (length (Roles u)) [])"

section \<open>The store behind the repository\<close>

text \<open>
  The repository (the file with \<^verbatim>\<open>package user\<close> and the \<^verbatim>\<open>Repository\<close> interface) talks to a
  relational store through a query library. The store is modelled as explicit state, the
  record \<open>world\<close>: the three tables, the sequence behind the serial \<^verbatim>\<open>users.id\<close>, the clock
  read by \<^verbatim>\<open>time.Now()\<close> and \<^verbatim>\<open>current_timestamp\<close>, the statements issued so far, the
  transactions begun, and a script of store failures.

  Every statement handed to the store is appended to \<open>issued\<close>, so that "no query is issued"
  and "one statement is issued" are properties of the state. A statement may fail for
  reasons outside the program (connectivity, timeout, cancellation): \<open>faults\<close> holds one flag
  per coming statement, \<open>True\<close> meaning that this statement fails with \<open>ErrConn\<close> and leaves the
  tables alone. With \<open>faults = []\<close> the store is healthy.

  The sources call the query library \<^verbatim>\<open>bun\<close> and, in places, keep the method names of another
  library (\<^verbatim>\<open>Joins\<close>, \<^verbatim>\<open>.Error\<close>). Each statement is modelled by the SQL that the library
  writes for it from the struct tags and the fragments of the call.

  The tags give both tables an alias: \<^verbatim>\<open>table:users,alias:u\<close> in model.go and
  \<^verbatim>\<open>table:roles,alias:r\<close> in role.go, so a select built from a model reads \<^verbatim>\<open>FROM users AS u\<close>
  or \<^verbatim>\<open>FROM roles AS r\<close>. A join or a condition that the repository hands over as text is
  copied into the statement as it stands; where it names the table itself (\<^verbatim>\<open>users.id\<close> in
  line 115, \<^verbatim>\<open>users.name\<close> and \<^verbatim>\<open>users.email\<close> in line 125, \<^verbatim>\<open>roles.id\<close> in line 209) it is an
  invalid reference, and the store rejects the statement that carries it with
  \<open>ErrInvalidReference\<close>, whatever the tables hold.
\<close>

datatype error =
    ErrNoRows                 \<comment> \<open>\<^verbatim>\<open>sql.ErrNoRows\<close>\<close>
  | ErrConn                   \<comment> \<open>a failure of the store itself\<close>
  | ErrUniqueViolation        \<comment> \<open>a primary key or uniqueness constraint rejected the row\<close>
  | ErrInvalidReference       \<comment> \<open>the store rejected a statement that names an aliased table\<close>
  | ErrorsNew string          \<comment> \<open>\<^verbatim>\<open>errors.New(msg)\<close>\<close>

text \<open>
  The association table \<^verbatim>\<open>user_roles\<close> has no struct in the sources; its columns are those
  of the \<^verbatim>\<open>INSERT\<close> statement of \<^verbatim>\<open>AssignRole\<close>, and its key is the conflict target of that
  statement, the pair \<^verbatim>\<open>(user_id, role_id)\<close>.
\<close>

record user_roles_row =
  user_id :: nat
  role_id :: nat
  assigned_at :: time

text \<open>
  A \<^verbatim>\<open>*bun.DB\<close> handle is known by a number. The value that a context carries under
  \<^verbatim>\<open>txKey{}\<close> is an \<^verbatim>\<open>interface{}\<close>; its dynamic type is either \<^verbatim>\<open>bun.Tx\<close> (what \<^verbatim>\<open>BeginTx\<close>
  returns) or \<^verbatim>\<open>*bun.DB\<close> (what \<^verbatim>\<open>getDB\<close> asserts).
\<close>

type_synonym bun_DB = nat

datatype any =
    TxValue nat               \<comment> \<open>a \<^verbatim>\<open>bun.Tx\<close>, by the number of its transaction\<close>
  | DBValue bun_DB            \<comment> \<open>a \<^verbatim>\<open>*bun.DB\<close>\<close>

record Context =
  txKey :: "any option"

record repository =
  db :: bun_DB

datatype stmt =
    Begin
  | InsertUser
  | SelectUserByEmail string
  | SelectUserByID nat
  | SelectRolesRelation "nat list"
  | UpdateUser nat
  | SoftDeleteUser nat
  | CountDistinctUserIDs
  | SelectUsersPage
  | CountUsersPage
  | SelectRoleByName string
  | InsertUserRole nat nat
  | DeleteUserRole nat nat
  | SelectRolesOfUser nat

record world =
  users :: "User list"
  roles :: "Role list"
  user_roles :: "user_roles_row list"
  users_id_seq :: nat
  now :: time
  issued :: "(bun_DB \<times> stmt) list"
  open_txs :: "nat list"
  faults :: "bool list"

text \<open>
  Handing one statement to the store through the handle \<open>d\<close>: the statement is recorded and
  the next fault flag is consumed. The result is \<open>True\<close> when the store executes it.
  A statement run on a \<^verbatim>\<open>*bun.DB\<close> uses a pooled connection and is committed on its own;
  only statements run on a \<^verbatim>\<open>bun.Tx\<close> value belong to its transaction, and the repository
  runs none there. The world therefore holds the committed tables only, and \<open>open_txs\<close>
  lists the transactions begun and never finished (nothing in the sources commits or rolls back).
\<close>

definition issue :: "bun_DB \<Rightarrow> stmt \<Rightarrow> world \<Rightarrow> bool \<times> world" where
  "issue d st w =
     (case faults w of
        [] \<Rightarrow> (True, w\<lparr>issued := issued w @ [(d, st)]\<rparr>)
      | f # fs \<Rightarrow> (\<not> f, w\<lparr>issued := issued w @ [(d, st)], faults := fs\<rparr>))"

subsection \<open>Statements on \<^verbatim>\<open>users\<close>\<close>

text \<open>
  The column \<^verbatim>\<open>deleted_at\<close> is \<open>None\<close> when it is \<^verbatim>\<open>NULL\<close>. model.go line 19 tags the field
  \<^verbatim>\<open>DeletedAt\<close> with \<^verbatim>\<open>soft_delete\<close> and without \<^verbatim>\<open>nullzero\<close>, and the field is a \<^verbatim>\<open>bun.NullTime\<close>,
  not a pointer: for such a field the query library takes the zero time, not \<^verbatim>\<open>NULL\<close>, as the
  mark of a row that is not deleted. It adds \<^verbatim>\<open>deleted_at = '0001-01-01 00:00:00'\<close> to every
  select, update and delete built from the model, and turns a delete into an update of
  \<^verbatim>\<open>deleted_at\<close>. A row whose \<^verbatim>\<open>deleted_at\<close> is \<^verbatim>\<open>NULL\<close> does not satisfy the comparison.
\<close>

definition live :: "User \<Rightarrow> bool" where
  "live u = (DeletedAt u = Some 0)"

text \<open>
  The primary key of \<^verbatim>\<open>users\<close>, the tag \<^verbatim>\<open>pk\<close> on \<^verbatim>\<open>ID\<close> in model.go: a row cannot take an id
  that a row of the table has, soft-deleted or not.
\<close>

definition id_taken :: "nat \<Rightarrow> User list \<Rightarrow> bool" where
  "id_taken i rows = list_ex (\<lambda>old. ID old = i) rows"

text \<open>
  Modelled from the spec: the uniqueness of \<^verbatim>\<open>users.email\<close>. The declaration of the table
  \<^verbatim>\<open>users\<close> is not among the sources; section 3 of the specification has the email unique,
  enforced by the store, which surfaces a violation as an error. A row cannot take an email
  that another row of the table has, soft-deleted or not.
\<close>

definition email_taken :: "string \<Rightarrow> User list \<Rightarrow> bool" where
  "email_taken e rows = list_ex (\<lambda>old. Email old = e) rows"

text \<open>
  \<^verbatim>\<open>NewInsert().Model(user).Exec(ctx)\<close>. A zero id is generated from the sequence and zero
  time stamps take the column default; the generated values are written back into the
  struct. The relation field \<^verbatim>\<open>Roles\<close> is not a column. A \<^verbatim>\<open>bun.NullTime\<close> that is zero (\<open>None\<close>
  in the struct, or the zero time) is written as \<^verbatim>\<open>NULL\<close>.
\<close>

definition exec_insert_user :: "bun_DB \<Rightarrow> User \<Rightarrow> world \<Rightarrow> (error + User) \<times> world" where
  "exec_insert_user d u w =
     (case issue d InsertUser w of
        (False, w1) \<Rightarrow> (Inl ErrConn, w1)
      | (True, w1) \<Rightarrow>
          (let w2 = (if ID u = 0 then w1\<lparr>users_id_seq := Suc (users_id_seq w1)\<rparr> else w1);
               row = u\<lparr>ID := (if ID u = 0 then users_id_seq w2 else ID u),
                       Roles := [],
                       CreatedAt := (if CreatedAt u = 0 then now w2 else CreatedAt u),
                       UpdatedAt := (if UpdatedAt u = 0 then now w2 else UpdatedAt u),
                       DeletedAt := (if DeletedAt u = Some 0 then None else DeletedAt u)\<rparr>
           in if id_taken (ID row) (users w2) \<or> email_taken (Email row) (users w2)
              then (Inl ErrUniqueViolation, w2)
              else (Inr (row\<lparr>Roles := Roles u, DeletedAt := DeletedAt u\<rparr>),
                    w2\<lparr>users := users w2 @ [row]\<rparr>)))"

text \<open>The rows of \<^verbatim>\<open>roles\<close> reached from a user through \<^verbatim>\<open>user_roles\<close> (relation \<^verbatim>\<open>m2m:user_roles\<close>).\<close>

definition roles_of_user :: "world \<Rightarrow> nat \<Rightarrow> Role list" where
  "roles_of_user w uid =
     [ro. ur \<leftarrow> user_roles w, user_id ur = uid, ro \<leftarrow> roles w, Role_ID ro = role_id ur]"

text \<open>
  \<^verbatim>\<open>Relation("Roles")\<close>: after the rows of the users are scanned, one more statement loads
  their roles; it is not issued when no user was scanned.
\<close>

definition load_roles :: "bun_DB \<Rightarrow> User list \<Rightarrow> world \<Rightarrow> (error + User list) \<times> world" where
  "load_roles d us w =
     (if us = [] then (Inr [], w)
      else case issue d (SelectRolesRelation (map ID us)) w of
             (False, w1) \<Rightarrow> (Inl ErrConn, w1)
           | (True, w1) \<Rightarrow> (Inr (map (\<lambda>u. u\<lparr>Roles := roles_of_user w1 (ID u)\<rparr>) us), w1))"

text \<open>
  \<^verbatim>\<open>NewSelect().Model(user).Relation("Roles").Where(...).Scan(ctx)\<close> into one struct: the
  first live row that satisfies the condition, or \<^verbatim>\<open>sql.ErrNoRows\<close>.
\<close>

definition scan_user :: "bun_DB \<Rightarrow> stmt \<Rightarrow> (User \<Rightarrow> bool) \<Rightarrow> world \<Rightarrow> (error + User) \<times> world" where
  "scan_user d st cond w =
     (case issue d st w of
        (False, w1) \<Rightarrow> (Inl ErrConn, w1)
      | (True, w1) \<Rightarrow>
          (case find (\<lambda>u. cond u \<and> live u) (users w1) of
             None \<Rightarrow> (Inl ErrNoRows, w1)
           | Some row \<Rightarrow>
               (case load_roles d [row] w1 of
                  (Inl err, w2) \<Rightarrow> (Inl err, w2)
                | (Inr [], w2) \<Rightarrow> (Inl ErrNoRows, w2)
                | (Inr (user # others), w2) \<Rightarrow> (Inr user, w2))))"

text \<open>
  \<^verbatim>\<open>NewUpdate().Model(user).Column("name", "email", "password_hash", "updated_at").
  Where("id = ?", user.ID).Exec(ctx)\<close>: the four columns of the live row with that id are
  set from the struct. The statement is rejected when it would give the row an email that
  another row has. The result is the number of rows affected.
\<close>

definition exec_update_user :: "bun_DB \<Rightarrow> User \<Rightarrow> world \<Rightarrow> (error + nat) \<times> world" where
  "exec_update_user d user w =
     (case issue d (UpdateUser (ID user)) w of
        (False, w1) \<Rightarrow> (Inl ErrConn, w1)
      | (True, w1) \<Rightarrow>
          (let hit = (\<lambda>row. ID row = ID user \<and> live row)
           in if list_ex hit (users w1)
                 \<and> email_taken (Email user) (filter (\<lambda>other. \<not> hit other) (users w1))
              then (Inl ErrUniqueViolation, w1)
              else (Inr (length (filter hit (users w1))),
                    w1\<lparr>users := map (\<lambda>row. if hit row
                                            then row\<lparr>Name := Name user, Email := Email user,
                                                     PasswordHash := PasswordHash user,
                                                     UpdatedAt := UpdatedAt user\<rparr>
                                            else row) (users w1)\<rparr>)))"

text \<open>
  \<^verbatim>\<open>NewDelete().Model((*User)(nil)).Where("id = ?", id).Exec(ctx)\<close> on a soft-delete model:
  \<^verbatim>\<open>UPDATE users SET deleted_at = now WHERE id = ? AND deleted_at = '0001-01-01 00:00:00'\<close>.
\<close>

definition exec_delete_user :: "bun_DB \<Rightarrow> nat \<Rightarrow> world \<Rightarrow> (error + nat) \<times> world" where
  "exec_delete_user d i w =
     (case issue d (SoftDeleteUser i) w of
        (False, w1) \<Rightarrow> (Inl ErrConn, w1)
      | (True, w1) \<Rightarrow>
          (let hit = (\<lambda>row. ID row = i \<and> live row)
           in (Inr (length (filter hit (users w1))),
               w1\<lparr>users := map (\<lambda>row. if hit row then row\<lparr>DeletedAt := Some (now w1)\<rparr> else row)
                                (users w1)\<rparr>)))"

subsection \<open>Statements on \<^verbatim>\<open>roles\<close> and \<^verbatim>\<open>user_roles\<close>\<close>

definition scan_role :: "bun_DB \<Rightarrow> string \<Rightarrow> world \<Rightarrow> (error + Role) \<times> world" where
  "scan_role d name w =
     (case issue d (SelectRoleByName name) w of
        (False, w1) \<Rightarrow> (Inl ErrConn, w1)
      | (True, w1) \<Rightarrow>
          (case find (\<lambda>ro. Role_Name ro = name) (roles w1) of
             None \<Rightarrow> (Inl ErrNoRows, w1)
           | Some ro \<Rightarrow> (Inr ro, w1)))"

text \<open>
  \<^verbatim>\<open>INSERT INTO user_roles (user_id, role_id, assigned_at) VALUES (?, ?, ?)
  ON CONFLICT (user_id, role_id) DO NOTHING\<close>: one atomic statement of the store; a row with
  the same pair makes it a no-op that succeeds.
\<close>

definition exec_insert_user_role ::
  "bun_DB \<Rightarrow> nat \<Rightarrow> nat \<Rightarrow> time \<Rightarrow> world \<Rightarrow> error option \<times> world" where
  "exec_insert_user_role d uid rid t w =
     (case issue d (InsertUserRole uid rid) w of
        (False, w1) \<Rightarrow> (Some ErrConn, w1)
      | (True, w1) \<Rightarrow>
          (if list_ex (\<lambda>ur. user_id ur = uid \<and> role_id ur = rid) (user_roles w1)
           then (None, w1)
           else (None, w1\<lparr>user_roles := user_roles w1
                            @ [\<lparr>user_id = uid, role_id = rid, assigned_at = t\<rparr>]\<rparr>)))"

text \<open>\<^verbatim>\<open>DELETE FROM user_roles WHERE user_id = ? AND role_id = ?\<close>\<close>

definition exec_delete_user_role :: "bun_DB \<Rightarrow> nat \<Rightarrow> nat \<Rightarrow> world \<Rightarrow> error option \<times> world" where
  "exec_delete_user_role d uid rid w =
     (case issue d (DeleteUserRole uid rid) w of
        (False, w1) \<Rightarrow> (Some ErrConn, w1)
      | (True, w1) \<Rightarrow>
          (None, w1\<lparr>user_roles :=
                      filter (\<lambda>ur. \<not> (user_id ur = uid \<and> role_id ur = rid)) (user_roles w1)\<rparr>))"

text \<open>
  \<^verbatim>\<open>NewSelect().Model(&roles).Joins("JOIN user_roles ON user_roles.role_id = roles.id").
  Where("user_roles.user_id = ?", userID).Scan(ctx)\<close>: the model gives \<^verbatim>\<open>roles\<close> the alias \<^verbatim>\<open>r\<close>
  and the join fragment names \<^verbatim>\<open>roles.id\<close>, so the store rejects the statement on every
  input; no row is ever scanned.
\<close>

definition scan_roles_of_user :: "bun_DB \<Rightarrow> nat \<Rightarrow> world \<Rightarrow> (error + Role list) \<times> world" where
  "scan_roles_of_user d uid w =
     (case issue d (SelectRolesOfUser uid) w of
        (False, w1) \<Rightarrow> (Inl ErrConn, w1)
      | (True, w1) \<Rightarrow> (Inl ErrInvalidReference, w1))"

text \<open>
  \<^verbatim>\<open>BeginTx\<close>: a new transaction is opened on the store and its \<^verbatim>\<open>bun.Tx\<close> returned; on a
  failure the zero \<^verbatim>\<open>bun.Tx\<close> comes back with the error.
\<close>

definition BeginTx :: "bun_DB \<Rightarrow> world \<Rightarrow> (any \<times> error option) \<times> world" where
  "BeginTx d w =
     (case issue d Begin w of
        (False, w1) \<Rightarrow> ((TxValue 0, Some ErrConn), w1)
      | (True, w1) \<Rightarrow>
          ((TxValue (Suc (length (open_txs w1))), None),
           w1\<lparr>open_txs := open_txs w1 @ [Suc (length (open_txs w1))]\<rparr>))"

subsection \<open>Listing: filters, search pattern, ordering, paging\<close>

text \<open>
  Modelled from the spec: the struct \<^verbatim>\<open>UserFilterParams\<close>, which is not among the sources.
  Section 6 of the specification lists the role name, the search text, the sort field and
  the order of a filter; \<^verbatim>\<open>ListAllUsers\<close> reads them as the string fields \<^verbatim>\<open>Role\<close>, \<^verbatim>\<open>Search\<close>,
  \<^verbatim>\<open>Sort\<close> and \<^verbatim>\<open>Order\<close>, the empty string standing for an absent role name or search text.
\<close>

record UserFilterParams =
  Role :: string
  Search :: string
  Sort :: string
  Order :: string

text \<open>
  \<^verbatim>\<open>strings.ReplaceAll(s, old, new)\<close> where \<^verbatim>\<open>old\<close> is a string of one byte, as in both calls of
  \<^verbatim>\<open>ListAllUsers\<close>: every occurrence of the byte is replaced.
\<close>

definition ReplaceAll :: "string \<Rightarrow> char \<Rightarrow> string \<Rightarrow> string" where
  "ReplaceAll s old new = concat (map (\<lambda>c. if c = old then new else [c]) s)"

text \<open>Lines 122 to 124 of the repository: \<^verbatim>\<open>CHR 0x5C\<close> is the backslash.\<close>

definition searchPattern :: "string \<Rightarrow> string" where
  "searchPattern search =
     (let escapedSearch = ReplaceAll search (CHR ''%'') [CHR 0x5C, CHR ''%''];
          escapedSearch = ReplaceAll escapedSearch (CHR ''_'') [CHR 0x5C, CHR ''_'']
      in ''%'' @ escapedSearch @ ''%'')"

text \<open>
  The select that \<^verbatim>\<open>ListAllUsers\<close> builds in lines 112 to 126: the model's select with the
  relation \<^verbatim>\<open>Roles\<close>, to which a role filter adds the fragments
  \<^verbatim>\<open>JOIN user_roles ON user_roles.user_id = users.id\<close>, \<^verbatim>\<open>JOIN roles ON roles.id = user_roles.role_id\<close>
  and \<^verbatim>\<open>roles.name = ?\<close>, and a search text the fragment
  \<^verbatim>\<open>users.name LIKE ? OR users.email LIKE ?\<close> with the pattern.
\<close>

record select_users =
  role_fragments :: "string option"
  search_fragment :: "string option"

definition build_query :: "UserFilterParams \<Rightarrow> select_users" where
  "build_query filters =
     \<lparr>role_fragments = (if Role filters \<noteq> [] then Some (Role filters) else None),
      search_fragment = (if Search filters \<noteq> []
                         then Some (searchPattern (Search filters)) else None)\<rparr>"

text \<open>
  Both kinds of fragment name \<^verbatim>\<open>users\<close>, which the select knows as \<^verbatim>\<open>u\<close>: the store rejects the
  select, and every statement derived from it, as soon as one of them is present.
\<close>

definition names_aliased_table :: "select_users \<Rightarrow> bool" where
  "names_aliased_table q = (\<not> (role_fragments q = None \<and> search_fragment q = None))"

text \<open>The rows that the select denotes when it carries no fragment: the live rows of \<^verbatim>\<open>users\<close>.\<close>

definition query_rows :: "world \<Rightarrow> User list" where
  "query_rows w = filter live (users w)"

text \<open>
  \<^verbatim>\<open>query.Distinct("users.id").Count(&total)\<close>, line 129: the count of the distinct user ids
  of the select, as the comment of line 128 has it. The statement carries the joins and
  conditions of the select, and is rejected with them.
\<close>

definition exec_count_distinct_ids ::
  "bun_DB \<Rightarrow> select_users \<Rightarrow> world \<Rightarrow> (error + int) \<times> world" where
  "exec_count_distinct_ids d q w =
     (case issue d CountDistinctUserIDs w of
        (False, w1) \<Rightarrow> (Inl ErrConn, w1)
      | (True, w1) \<Rightarrow>
          (if names_aliased_table q then (Inl ErrInvalidReference, w1)
           else (Inr (int (length (remdups (map ID (query_rows w1))))), w1)))"

text \<open>
  \<^verbatim>\<open>ORDER BY\<close> one of the four allowed columns, ascending or descending. Strings are compared
  by character code; the order of rows with equal keys, which SQL leaves open, is that of
  the table.
\<close>

definition order_users :: "string \<Rightarrow> string \<Rightarrow> User list \<Rightarrow> User list" where
  "order_users column direction us =
     (let ascending =
            (if column = ''name'' then sort_key Name us
             else if column = ''email'' then sort_key Email us
             else if column = ''created_at'' then sort_key CreatedAt us
             else sort_key UpdatedAt us)
      in if direction = ''desc'' then rev ascending else ascending)"

text \<open>The query library writes a \<^verbatim>\<open>LIMIT\<close> or \<^verbatim>\<open>OFFSET\<close> clause only for a positive number.\<close>

definition limit_rows :: "int \<Rightarrow> 'a list \<Rightarrow> 'a list" where
  "limit_rows n xs = (if 0 < n then take (nat n) xs else xs)"

definition offset_rows :: "int \<Rightarrow> 'a list \<Rightarrow> 'a list" where
  "offset_rows n xs = (if 0 < n then drop (nat n) xs else xs)"

text \<open>
  \<^verbatim>\<open>query.Distinct().Order(orderColumn).Limit(perPage).Offset(offset).ScanAndCount(ctx)\<close>:
  the page query with the roles of its users, and a count of the distinct rows that ignores
  \<^verbatim>\<open>LIMIT\<close> and \<^verbatim>\<open>OFFSET\<close>. Both are issued; the error is the first one.
\<close>

definition ScanAndCount ::
  "bun_DB \<Rightarrow> select_users \<Rightarrow> string \<Rightarrow> string \<Rightarrow> int \<Rightarrow> int \<Rightarrow> world
   \<Rightarrow> (User list \<times> int \<times> error option) \<times> world" where
  "ScanAndCount d q column direction lim off w =
     (case issue d SelectUsersPage w of (ok1, w1) \<Rightarrow>
        (case (if \<not> ok1 then (Inl ErrConn, w1)
               else if names_aliased_table q then (Inl ErrInvalidReference, w1)
               else load_roles d
                      (limit_rows lim (offset_rows off
                         (order_users column direction (remdups (query_rows w1))))) w1)
         of (scanned, w2) \<Rightarrow>
           (case issue d CountUsersPage w2 of (ok2, w3) \<Rightarrow>
              (let count = (if ok2 \<and> \<not> names_aliased_table q
                            then int (length (remdups (query_rows w3))) else 0);
                   countErr = (if \<not> ok2 then Some ErrConn
                               else if names_aliased_table q then Some ErrInvalidReference
                               else None)
               in case scanned of
                    Inl firstErr \<Rightarrow> (([], count, Some firstErr), w3)
                  | Inr us \<Rightarrow> ((us, count, countErr), w3)))))"

text \<open>Go's \<^verbatim>\<open>int\<close> is 64 bits wide and wraps around.\<close>

definition wrap64 :: "int \<Rightarrow> int" where
  "wrap64 x = (x + 2 ^ 63) mod 2 ^ 64 - 2 ^ 63"

definition validSorts :: "string \<rightharpoonup> bool" where
  "validSorts = [''name'' \<mapsto> True, ''email'' \<mapsto> True, ''created_at'' \<mapsto> True,
                 ''updated_at'' \<mapsto> True]"

text \<open>Indexing a Go \<^verbatim>\<open>map[string]bool\<close>: a missing key gives \<^verbatim>\<open>false\<close>.\<close>

definition index_map :: "(string \<rightharpoonup> bool) \<Rightarrow> string \<Rightarrow> bool" where
  "index_map m k = (case m k of None \<Rightarrow> False | Some b \<Rightarrow> b)"

section \<open>The repository\<close>

text \<open>
  Each method takes the repository, the context and the world, and returns its Go results
  with the world after the call. A result \<^verbatim>\<open>error\<close> is an \<open>error option\<close> (\<open>None\<close> is \<^verbatim>\<open>nil\<close>),
  a result \<^verbatim>\<open>(x, error)\<close> is a sum, and \<^verbatim>\<open>(nil, nil)\<close> of the finders is \<open>Inr None\<close>.
\<close>

definition WithValue :: "Context \<Rightarrow> any \<Rightarrow> Context" where
  "WithValue ctx v = ctx\<lparr>txKey := Some v\<rparr>"

text \<open>
  \<^verbatim>\<open>getDB\<close>: the type assertion \<^verbatim>\<open>ctx.Value(txKey{}).(*bun.DB)\<close> succeeds only on a value whose
  dynamic type is \<^verbatim>\<open>*bun.DB\<close>.
\<close>

definition getDB :: "repository \<Rightarrow> Context \<Rightarrow> bun_DB" where
  "getDB r ctx = (case txKey ctx of Some (DBValue tx) \<Rightarrow> tx | _ \<Rightarrow> db r)"

text \<open>\<^verbatim>\<open>Create\<close> returns the error and the struct behind the pointer after the call.\<close>

definition Create :: "repository \<Rightarrow> Context \<Rightarrow> User \<Rightarrow> world \<Rightarrow> (error option \<times> User) \<times> world" where
  "Create r ctx user w =
     (case exec_insert_user (getDB r ctx) user w of
        (Inl err, w1) \<Rightarrow> ((Some err, user), w1)
      | (Inr user', w1) \<Rightarrow> ((None, user'), w1))"

definition FindByEmail ::
  "repository \<Rightarrow> Context \<Rightarrow> string \<Rightarrow> world \<Rightarrow> (error + User option) \<times> world" where
  "FindByEmail r ctx email w =
     (case scan_user (getDB r ctx) (SelectUserByEmail email) (\<lambda>u. Email u = email) w of
        (Inl err, w1) \<Rightarrow> (if err = ErrNoRows then (Inr None, w1) else (Inl err, w1))
      | (Inr user, w1) \<Rightarrow> (Inr (Some user), w1))"

definition FindByID ::
  "repository \<Rightarrow> Context \<Rightarrow> nat \<Rightarrow> world \<Rightarrow> (error + User option) \<times> world" where
  "FindByID r ctx i w =
     (case scan_user (getDB r ctx) (SelectUserByID i) (\<lambda>u. ID u = i) w of
        (Inl err, w1) \<Rightarrow> (if err = ErrNoRows then (Inr None, w1) else (Inl err, w1))
      | (Inr user, w1) \<Rightarrow> (Inr (Some user), w1))"

definition Update :: "repository \<Rightarrow> Context \<Rightarrow> User \<Rightarrow> world \<Rightarrow> error option \<times> world" where
  "Update r ctx user w =
     (case exec_update_user (getDB r ctx) user w of
        (Inl err, w1) \<Rightarrow> (Some err, w1)
      | (Inr affected, w1) \<Rightarrow> (None, w1))"

definition Delete :: "repository \<Rightarrow> Context \<Rightarrow> nat \<Rightarrow> world \<Rightarrow> error option \<times> world" where
  "Delete r ctx i w =
     (case exec_delete_user (getDB r ctx) i w of
        (Inl err, w1) \<Rightarrow> (Some err, w1)
      | (Inr affected, w1) \<Rightarrow> (None, w1))"

definition ListAllUsers ::
  "repository \<Rightarrow> Context \<Rightarrow> UserFilterParams \<Rightarrow> int \<Rightarrow> int \<Rightarrow> world
   \<Rightarrow> (error + User list \<times> int) \<times> world" where
  "ListAllUsers r ctx filters page perPage w =
     (case exec_count_distinct_ids (getDB r ctx) (build_query filters) w of
        (Inl err, w1) \<Rightarrow> (Inl err, w1)
      | (Inr total1, w1) \<Rightarrow>
          (let offset = wrap64 ((page - 1) * perPage)
           in if \<not> index_map validSorts (Sort filters)
              then (Inl (ErrorsNew ''invalid sort field''), w1)
              else if Order filters \<noteq> ''asc'' \<and> Order filters \<noteq> ''desc''
              then (Inl (ErrorsNew ''invalid sort order''), w1)
              else (case ScanAndCount (getDB r ctx) (build_query filters) (Sort filters)
                           (Order filters) perPage offset w1 of
                      ((us, total2, Some err), w2) \<Rightarrow> (Inl err, w2)
                    | ((us, total2, None), w2) \<Rightarrow> (Inr (us, total2), w2))))"

definition FindRoleByName ::
  "repository \<Rightarrow> Context \<Rightarrow> string \<Rightarrow> world \<Rightarrow> (error + Role option) \<times> world" where
  "FindRoleByName r ctx name w =
     (case scan_role (getDB r ctx) name w of
        (Inl err, w1) \<Rightarrow> (if err = ErrNoRows then (Inr None, w1) else (Inl err, w1))
      | (Inr role, w1) \<Rightarrow> (Inr (Some role), w1))"

text \<open>
  \<^verbatim>\<open>AssignRole\<close> issues two statements: the lookup of the role (line 159) and the insert
  (line 171). \<open>AssignRole_insert\<close> is the method from line 160 on, given what the lookup
  returned; \<^verbatim>\<open>time.Now()\<close> is read when the insert is built.
\<close>

definition AssignRole_insert ::
  "repository \<Rightarrow> Context \<Rightarrow> nat \<Rightarrow> error + Role option \<Rightarrow> world \<Rightarrow> error option \<times> world" where
  "AssignRole_insert r ctx userID found w =
     (case found of
        Inl err \<Rightarrow> (Some err, w)
      | Inr None \<Rightarrow> (Some (ErrorsNew ''role not found''), w)
      | Inr (Some role) \<Rightarrow>
          exec_insert_user_role (getDB r ctx) userID (Role_ID role) (now w) w)"

definition AssignRole ::
  "repository \<Rightarrow> Context \<Rightarrow> nat \<Rightarrow> string \<Rightarrow> world \<Rightarrow> error option \<times> world" where
  "AssignRole r ctx userID roleName w =
     (case FindRoleByName r ctx roleName w of
        (found, w1) \<Rightarrow> AssignRole_insert r ctx userID found w1)"

definition RemoveRole ::
  "repository \<Rightarrow> Context \<Rightarrow> nat \<Rightarrow> string \<Rightarrow> world \<Rightarrow> error option \<times> world" where
  "RemoveRole r ctx userID roleName w =
     (case FindRoleByName r ctx roleName w of
        (Inl err, w1) \<Rightarrow> (Some err, w1)
      | (Inr None, w1) \<Rightarrow> (Some (ErrorsNew ''role not found''), w1)
      | (Inr (Some role), w1) \<Rightarrow>
          exec_delete_user_role (getDB r ctx) userID (Role_ID role) w1)"

definition GetUserRoles ::
  "repository \<Rightarrow> Context \<Rightarrow> nat \<Rightarrow> world \<Rightarrow> (error + Role list) \<times> world" where
  "GetUserRoles r ctx userID w =
     (case scan_roles_of_user (getDB r ctx) userID w of
        (Inl err, w1) \<Rightarrow> (Inl err, w1)
      | (Inr rs, w1) \<Rightarrow> (Inr rs, w1))"

text \<open>
  \<^verbatim>\<open>CreateAndAssignRole\<close>: the error of \<^verbatim>\<open>BeginTx\<close> is not looked at, the \<^verbatim>\<open>bun.Tx\<close> is put into
  the context, and the two steps run with that context. There is no call of \<^verbatim>\<open>Commit\<close> or
  \<^verbatim>\<open>Rollback\<close>. The result is the error and the struct behind the pointer after the call.
\<close>

definition CreateAndAssignRole ::
  "repository \<Rightarrow> Context \<Rightarrow> User \<Rightarrow> string \<Rightarrow> world \<Rightarrow> (error option \<times> User) \<times> world" where
  "CreateAndAssignRole r ctx user roleName w =
     (case BeginTx (getDB r ctx) w of ((tx, err), w1) \<Rightarrow>
        (let txCtx = WithValue ctx tx
         in case Create r txCtx user w1 of
              ((Some err, user'), w2) \<Rightarrow> ((Some err, user'), w2)
            | ((None, user'), w2) \<Rightarrow>
                (case AssignRole r txCtx (ID user') roleName w2 of
                   (res, w3) \<Rightarrow> ((res, user'), w3))))"

section \<open>Vocabulary of the properties\<close>

text \<open>Whether the store will fail the next statement handed to it.\<close>

definition fails_next :: "world \<Rightarrow> bool" where
  "fails_next w = (case faults w of [] \<Rightarrow> False | f # fs \<Rightarrow> f)"

text \<open>
  The constraints that the tables declare: the primary keys of \<^verbatim>\<open>users\<close> and \<^verbatim>\<open>roles\<close>, the
  uniqueness of \<^verbatim>\<open>users.email\<close> and of \<^verbatim>\<open>roles.name\<close>, and the composite key of \<^verbatim>\<open>user_roles\<close>.
\<close>

definition constraints :: "world \<Rightarrow> bool" where
  "constraints w =
     (distinct (map ID (users w)) \<and> distinct (map Email (users w))
      \<and> distinct (map Role_ID (roles w)) \<and> distinct (map Role_Name (roles w))
      \<and> distinct (map (\<lambda>ur. (user_id ur, role_id ur)) (user_roles w)))"

text \<open>The number of rows of \<^verbatim>\<open>user_roles\<close> for a pair of a user and a role.\<close>

definition association_count :: "world \<Rightarrow> nat \<Rightarrow> nat \<Rightarrow> nat" where
  "association_count w uid rid =
     length (filter (\<lambda>ur. user_id ur = uid \<and> role_id ur = rid) (user_roles w))"

text \<open>
  Two callers of \<^verbatim>\<open>AssignRole\<close> at the same time. The store executes one statement at a
  time, so a concurrent run is an interleaving of the statements of the two calls. A call
  is at its start, or has its lookup behind it, or has returned; \<open>AssignRole_step\<close> lets it
  issue its next statement. A schedule says whose turn it is, \<open>True\<close> for the first caller.
\<close>

datatype call_state =
    Start
  | Found "error + Role option"
  | Finished "error option"

fun AssignRole_step ::
  "repository \<Rightarrow> Context \<Rightarrow> nat \<Rightarrow> string \<Rightarrow> call_state \<Rightarrow> world \<Rightarrow> call_state \<times> world" where
  "AssignRole_step r ctx userID roleName Start w =
     (case FindRoleByName r ctx roleName w of (found, w1) \<Rightarrow> (Found found, w1))"
| "AssignRole_step r ctx userID roleName (Found found) w =
     (case AssignRole_insert r ctx userID found w of (err, w1) \<Rightarrow> (Finished err, w1))"
| "AssignRole_step r ctx userID roleName (Finished err) w = (Finished err, w)"

fun AssignRole_twice ::
  "repository \<times> Context \<Rightarrow> repository \<times> Context \<Rightarrow> nat \<Rightarrow> string \<Rightarrow> bool list
   \<Rightarrow> call_state \<times> call_state \<Rightarrow> world \<Rightarrow> (call_state \<times> call_state) \<times> world" where
  "AssignRole_twice c1 c2 userID roleName [] (s1, s2) w = ((s1, s2), w)"
| "AssignRole_twice c1 c2 userID roleName (turn # schedule) (s1, s2) w =
     (if turn
      then (case AssignRole_step (fst c1) (snd c1) userID roleName s1 w of
              (s1', w') \<Rightarrow> AssignRole_twice c1 c2 userID roleName schedule (s1', s2) w')
      else (case AssignRole_step (fst c2) (snd c2) userID roleName s2 w of
              (s2', w') \<Rightarrow> AssignRole_twice c1 c2 userID roleName schedule (s1, s2') w'))"

text \<open>How many statements' worth of steps a call has behind it.\<close>

fun progress :: "call_state \<Rightarrow> nat" where
  "progress Start = 0"
| "progress (Found found) = 1"
| "progress (Finished err) = 2"

text \<open>
  What holds throughout a concurrent run of two assignments of the role \<open>role\<close> to the user
  \<open>uid\<close> on a healthy store: the role is there, every call has found it if it has looked, has succeeded
  if it has returned, and the pair has at most one row, exactly one once a call has returned.
\<close>

definition assigning :: "Role \<Rightarrow> nat \<Rightarrow> call_state \<times> call_state \<Rightarrow> world \<Rightarrow> bool" where
  "assigning role uid ss w =
     (faults w = []
      \<and> find (\<lambda>ro. Role_Name ro = Role_Name role) (roles w) = Some role
      \<and> distinct (map (\<lambda>ur. (user_id ur, role_id ur)) (user_roles w))
      \<and> fst ss \<in> {Start, Found (Inr (Some role)), Finished None}
      \<and> snd ss \<in> {Start, Found (Inr (Some role)), Finished None}
      \<and> (if fst ss = Finished None \<or> snd ss = Finished None
          then association_count w uid (Role_ID role) = 1
          else association_count w uid (Role_ID role) \<le> 1))"

text \<open>A row of \<^verbatim>\<open>users\<close> with the four columns that \<^verbatim>\<open>Update\<close> names blanked out.\<close>

definition without_update_columns :: "User \<Rightarrow> User" where
  "without_update_columns row = row\<lparr>Name := [], Email := [], PasswordHash := [], UpdatedAt := 0\<rparr>"

text \<open>The seed of the migration script: the roles \<^verbatim>\<open>user\<close>, \<^verbatim>\<open>moderator\<close> and \<^verbatim>\<open>admin\<close>.\<close>

definition seeded_roles :: "Role list" where
  "seeded_roles =
     [\<lparr>Role_ID = 1, Role_Name = ''user'',
       Role_Description = ''Standard user with basic permissions'',
       Role_CreatedAt = 1, Role_UpdatedAt = 1\<rparr>,
      \<lparr>Role_ID = 2, Role_Name = ''moderator'',
       Role_Description = ''Moderator with extended permissions'',
       Role_CreatedAt = 1, Role_UpdatedAt = 1\<rparr>,
      \<lparr>Role_ID = 3, Role_Name = ''admin'',
       Role_Description = ''Administrator with full system access'',
       Role_CreatedAt = 1, Role_UpdatedAt = 1\<rparr>]"

text \<open>A healthy store right after the migration, at time \<open>7\<close>, and a repository on it.\<close>

definition fresh :: world where
  "fresh = \<lparr>users = [], roles = seeded_roles, user_roles = [], users_id_seq = 0, now = 7,
            issued = [], open_txs = [], faults = []\<rparr>"

definition repo :: repository where
  "repo = \<lparr>db = 0\<rparr>"

definition background :: Context where
  "background = \<lparr>txKey = None\<rparr>"

definition new_user :: "string \<Rightarrow> string \<Rightarrow> User" where
  "new_user name email =
     \<lparr>ID = 0, Name = name, Email = email, PasswordHash = ''hash'', Roles = [],
      CreatedAt = 0, UpdatedAt = 0, DeletedAt = None\<rparr>"

text \<open>The store after \<^verbatim>\<open>Create\<close> has stored the user Ann on the store of the migration.\<close>

definition after_create :: world where
  "after_create = snd (Create repo background (new_user ''ann'' ''ann@example.com'') fresh)"

text \<open>The store after \<^verbatim>\<open>AssignRole\<close> has then given Ann the role \<^verbatim>\<open>admin\<close>.\<close>

definition after_assign :: world where
  "after_assign = snd (AssignRole repo background 1 ''admin'' after_create)"

text \<open>
  A healthy store at time \<open>10\<close> with two users, as \<^verbatim>\<open>Create\<close> and \<^verbatim>\<open>AssignRole\<close> leave them: Ann
  holds the roles \<^verbatim>\<open>admin\<close> and \<^verbatim>\<open>moderator\<close>, Bob holds the role \<^verbatim>\<open>user\<close>.
\<close>

definition populated :: world where
  "populated =
     \<lparr>users = [\<lparr>ID = 1, Name = ''ann'', Email = ''ann@example.com'', PasswordHash = ''hash'',
                 Roles = [], CreatedAt = 8, UpdatedAt = 8, DeletedAt = None\<rparr>,
                \<lparr>ID = 2, Name = ''bob'', Email = ''bob@example.com'', PasswordHash = ''hash'',
                 Roles = [], CreatedAt = 9, UpdatedAt = 9, DeletedAt = None\<rparr>],
      roles = seeded_roles,
      user_roles = [\<lparr>user_id = 1, role_id = 3, assigned_at = 8\<rparr>,
                    \<lparr>user_id = 1, role_id = 2, assigned_at = 8\<rparr>,
                    \<lparr>user_id = 2, role_id = 1, assigned_at = 9\<rparr>],
      users_id_seq = 2, now = 10, issued = [], open_txs = [], faults = []\<rparr>"

text \<open>A healthy store with the users of the search example, named \<^verbatim>\<open>50%Off\<close> and \<^verbatim>\<open>50X\<close>.\<close>

definition discount_store :: world where
  "discount_store =
     \<lparr>users = [\<lparr>ID = 1, Name = ''50%Off'', Email = ''off@example.com'', PasswordHash = ''hash'',
                 Roles = [], CreatedAt = 8, UpdatedAt = 8, DeletedAt = None\<rparr>,
                \<lparr>ID = 2, Name = ''50X'', Email = ''x@example.com'', PasswordHash = ''hash'',
                 Roles = [], CreatedAt = 9, UpdatedAt = 9, DeletedAt = None\<rparr>],
      roles = seeded_roles, user_roles = [], users_id_seq = 2, now = 10, issued = [],
      open_txs = [], faults = []\<rparr>"

section \<open>Properties of the entity model\<close>

lemma HasRole_loop_iff:
  "HasRole_loop rs x \<longleftrightarrow> x \<in> Role_Name ` set rs"
  by (induction rs) auto

lemma GetRoleNames_loop_eq:
  "i + length rs \<le> length acc \<Longrightarrow>
   GetRoleNames_loop i rs acc = take i acc @ map Role_Name rs @ drop (i + length rs) acc"
proof (induction rs arbitrary: i acc)
  case Nil
  then show ?case by simp
next
  case (Cons role rest)
  have i: "i < length acc"
    using Cons.prems by simp
  have "GetRoleNames_loop i (role # rest) acc
      = GetRoleNames_loop (Suc i) rest (acc[i := Role_Name role])"
    by simp
  also have "\<dots> = take (Suc i) (acc[i := Role_Name role]) @ map Role_Name rest
      @ drop (Suc i + length rest) (acc[i := Role_Name role])"
    using Cons.prems by (intro Cons.IH) simp
  also have "take (Suc i) (acc[i := Role_Name role]) = take i acc @ [Role_Name role]"
    using i by (simp add: take_Suc_conv_app_nth)
  also have "drop (Suc i + length rest) (acc[i := Role_Name role])
      = drop (i + length (role # rest)) acc"
    by simp
  finally show ?case by simp
qed

text \<open>
  C9: the role checks are projections of the loaded role list. \<open>HasRole u x\<close> holds exactly
  when some loaded role is named \<open>x\<close>; \<open>GetRoleNames u\<close> is the list of the names of the
  loaded roles, in their order and of the same length; \<open>IsAdmin u\<close> is \<open>HasRole u ''admin''\<close>.
  The functions take the user only, so they cannot reach the store.
\<close>

theorem entity_projections:
  "(HasRole u x \<longleftrightarrow> (\<exists>r \<in> set (Roles u). Role_Name r = x))
   \<and> GetRoleNames u = map Role_Name (Roles u)
   \<and> length (GetRoleNames u) = length (Roles u)
   \<and> (IsAdmin u \<longleftrightarrow> HasRole u ''admin'')"
proof -
  have h: "HasRole u x \<longleftrightarrow> (\<exists>r \<in> set (Roles u). Role_Name r = x)"
    unfolding HasRole_def HasRole_loop_iff by auto
  have g: "GetRoleNames u = map Role_Name (Roles u)"
    unfolding GetRoleNames_def by (subst GetRoleNames_loop_eq) simp_all
  have a: "IsAdmin u \<longleftrightarrow> HasRole u ''admin''"
    by (simp add: IsAdmin_def RoleAdmin_def)
  from h g a show ?thesis by simp
qed

theorem entity_projections_witness:
  "HasRole \<lparr>ID = 1, Name = ''ann'', Email = ''ann@x'', PasswordHash = ''h'',
      Roles = [\<lparr>Role_ID = 1, Role_Name = ''user'', Role_Description = [],
                 Role_CreatedAt = 0, Role_UpdatedAt = 0\<rparr>,
               \<lparr>Role_ID = 3, Role_Name = ''admin'', Role_Description = [],
                 Role_CreatedAt = 0, Role_UpdatedAt = 0\<rparr>],
      CreatedAt = 5, UpdatedAt = 5, DeletedAt = None\<rparr> ''admin''
   \<and> GetRoleNames \<lparr>ID = 1, Name = ''ann'', Email = ''ann@x'', PasswordHash = ''h'',
      Roles = [\<lparr>Role_ID = 1, Role_Name = ''user'', Role_Description = [],
                 Role_CreatedAt = 0, Role_UpdatedAt = 0\<rparr>,
               \<lparr>Role_ID = 3, Role_Name = ''admin'', Role_Description = [],
                 Role_CreatedAt = 0, Role_UpdatedAt = 0\<rparr>],
      CreatedAt = 5, UpdatedAt = 5, DeletedAt = None\<rparr> = [''user'', ''admin'']"
  using entity_projections
    [of "\<lparr>ID = 1, Name = ''ann'', Email = ''ann@x'', PasswordHash = ''h'',
      Roles = [\<lparr>Role_ID = 1, Role_Name = ''user'', Role_Description = [],
                 Role_CreatedAt = 0, Role_UpdatedAt = 0\<rparr>,
               \<lparr>Role_ID = 3, Role_Name = ''admin'', Role_Description = [],
                 Role_CreatedAt = 0, Role_UpdatedAt = 0\<rparr>],
      CreatedAt = 5, UpdatedAt = 5, DeletedAt = None\<rparr>" "''admin''"]
  by simp

section \<open>Facts about the store\<close>

text \<open>
  Handing a statement to the store, written with \<open>fails_next\<close>; the unfolded definitions,
  for evaluating the repository on a given store.
\<close>

lemma email_taken_filter:
  "email_taken e (filter P us) \<longleftrightarrow> list_ex (\<lambda>other. P other \<and> Email other = e) us"
  by (auto simp: email_taken_def list_ex_iff)

lemma insert_rejected:
  "id_taken i us \<or> email_taken e us \<longleftrightarrow> list_ex (\<lambda>old. ID old = i \<or> Email old = e) us"
  by (auto simp: id_taken_def email_taken_def list_ex_iff)

lemma issue_eq:
  "issue d st w = (\<not> fails_next w, w\<lparr>issued := issued w @ [(d, st)], faults := tl (faults w)\<rparr>)"
  by (cases "faults w") (simp_all add: issue_def fails_next_def)

lemma issue_healthy:
  "faults w = [] \<Longrightarrow> issue d st w = (True, w\<lparr>issued := issued w @ [(d, st)]\<rparr>)"
  by (simp add: issue_def)

lemma healthy_not_fails: "faults w = [] \<Longrightarrow> \<not> fails_next w"
  by (simp add: fails_next_def)

lemma fails_next_faults_update [simp]:
  "fails_next (w\<lparr>faults := fs\<rparr>) = (case fs of [] \<Rightarrow> False | f # _ \<Rightarrow> f)"
  by (simp add: fails_next_def)

lemma fails_next_other_updates [simp]:
  "fails_next (w\<lparr>issued := q\<rparr>) = fails_next w"
  "fails_next (w\<lparr>users := us\<rparr>) = fails_next w"
  "fails_next (w\<lparr>user_roles := urs\<rparr>) = fails_next w"
  "fails_next (w\<lparr>users_id_seq := n\<rparr>) = fails_next w"
  "fails_next (w\<lparr>open_txs := txs\<rparr>) = fails_next w"
  by (simp_all add: fails_next_def)

lemma getDB_WithValue_Tx: "getDB r (WithValue ctx (TxValue n)) = db r"
  by (simp add: getDB_def WithValue_def)

lemma roles_of_user_updates [simp]:
  "roles_of_user (w\<lparr>issued := q\<rparr>) = roles_of_user w"
  "roles_of_user (w\<lparr>faults := fs\<rparr>) = roles_of_user w"
  "roles_of_user (w\<lparr>users := us\<rparr>) = roles_of_user w"
  by (simp_all add: roles_of_user_def fun_eq_iff cong: if_cong)

lemma association_count_updates [simp]:
  "association_count (w\<lparr>issued := q\<rparr>) = association_count w"
  "association_count (w\<lparr>faults := fs\<rparr>) = association_count w"
  by (simp_all add: association_count_def fun_eq_iff)

lemmas store_defs =
  issue_def id_taken_def email_taken_def exec_insert_user_def roles_of_user_def load_roles_def scan_user_def
  exec_update_user_def exec_delete_user_def scan_role_def exec_insert_user_role_def
  exec_delete_user_role_def scan_roles_of_user_def BeginTx_def live_def
  ReplaceAll_def searchPattern_def build_query_def names_aliased_table_def
  exec_count_distinct_ids_def ScanAndCount_def query_rows_def order_users_def limit_rows_def
  offset_rows_def wrap64_def validSorts_def index_map_def Let_def

lemmas repo_defs =
  WithValue_def getDB_def Create_def FindByEmail_def FindByID_def Update_def Delete_def
  ListAllUsers_def FindRoleByName_def AssignRole_insert_def AssignRole_def RemoveRole_def
  GetUserRoles_def CreateAndAssignRole_def

lemmas sample_defs =
  fresh_def repo_def background_def new_user_def seeded_roles_def after_create_def
  after_assign_def populated_def discount_store_def

subsection \<open>Rows written by Create are not live\<close>

text \<open>
  \<^verbatim>\<open>Create\<close> writes \<^verbatim>\<open>NULL\<close> into \<^verbatim>\<open>deleted_at\<close> unless the struct carries a deletion time, while
  the filter of the soft-delete model asks for the zero time: the row it has just written
  is not among the rows that the reads, \<^verbatim>\<open>Update\<close> and \<^verbatim>\<open>Delete\<close> see.
\<close>

lemma Create_eq:
  "Create r ctx user w =
     (let w1 = w\<lparr>issued := issued w @ [(getDB r ctx, InsertUser)], faults := tl (faults w)\<rparr>;
          w2 = (if ID user = 0 then w1\<lparr>users_id_seq := Suc (users_id_seq w)\<rparr> else w1);
          row = user\<lparr>ID := (if ID user = 0 then Suc (users_id_seq w) else ID user),
                     Roles := [],
                     CreatedAt := (if CreatedAt user = 0 then now w else CreatedAt user),
                     UpdatedAt := (if UpdatedAt user = 0 then now w else UpdatedAt user),
                     DeletedAt := (if DeletedAt user = Some 0 then None else DeletedAt user)\<rparr>
      in if fails_next w then ((Some ErrConn, user), w1)
         else if list_ex (\<lambda>old. ID old = ID row \<or> Email old = Email row) (users w)
         then ((Some ErrUniqueViolation, user), w2)
         else ((None, row\<lparr>Roles := Roles user, DeletedAt := DeletedAt user\<rparr>),
               w2\<lparr>users := users w @ [row]\<rparr>))"
  by (simp add: Create_def exec_insert_user_def issue_eq Let_def insert_rejected
      split: bool.splits)

lemma Create_row_not_live:
  assumes "fst (fst (Create r ctx user w)) = None"
  shows "\<exists>row. users (snd (Create r ctx user w)) = users w @ [row] \<and> \<not> live row"
  using assms by (simp add: Create_eq Let_def live_def split: if_splits)

section \<open>Delete: a soft delete that never reports a missing row\<close>

lemma Delete_eq:
  "Delete r ctx i w =
     (if fails_next w
      then (Some ErrConn, w\<lparr>issued := issued w @ [(getDB r ctx, SoftDeleteUser i)],
                             faults := tl (faults w)\<rparr>)
      else (None, w\<lparr>issued := issued w @ [(getDB r ctx, SoftDeleteUser i)],
                     faults := tl (faults w),
                     users := map (\<lambda>row. if ID row = i \<and> live row
                                          then row\<lparr>DeletedAt := Some (now w)\<rparr> else row)
                                  (users w)\<rparr>))"
  by (simp add: Delete_def exec_delete_user_def issue_eq Let_def)

lemma soft_delete_no_live_row:
  "\<forall>row \<in> set us. ID row = i \<longrightarrow> \<not> live row \<Longrightarrow>
   map (\<lambda>row. if ID row = i \<and> live row then row\<lparr>DeletedAt := Some t\<rparr> else row) us = us"
  by (induction us) auto

text \<open>
  C10: \<^verbatim>\<open>Delete\<close> never reports that the id is missing. For every id (of a live user, of no
  user, of a user deleted before) it issues exactly one statement, the soft delete, does not
  look at the number of rows affected, and returns \<^verbatim>\<open>nil\<close> unless the store itself fails the
  statement. The tables of roles and associations are never touched, and when no live row
  has the id the table of users is unchanged as well.
\<close>

theorem Delete_unconditional:
  "fst (Delete r ctx i w) = (if fails_next w then Some ErrConn else None)
   \<and> issued (snd (Delete r ctx i w)) = issued w @ [(getDB r ctx, SoftDeleteUser i)]
   \<and> roles (snd (Delete r ctx i w)) = roles w
   \<and> user_roles (snd (Delete r ctx i w)) = user_roles w
   \<and> ((\<forall>row \<in> set (users w). ID row = i \<longrightarrow> \<not> live row)
        \<longrightarrow> users (snd (Delete r ctx i w)) = users w)"
  by (simp add: Delete_eq soft_delete_no_live_row)

theorem Delete_unconditional_witness:
  "5 \<notin> ID ` set (users populated)
   \<and> fst (Delete repo background 5 populated) = None
   \<and> issued (snd (Delete repo background 5 populated)) = [(0, SoftDeleteUser 5)]
   \<and> users (snd (Delete repo background 5 populated)) = users populated"
proof -
  have absent: "5 \<notin> ID ` set (users populated)"
    by (simp add: populated_def)
  then have no_live: "\<forall>row \<in> set (users populated). ID row = 5 \<longrightarrow> \<not> live row"
    by (metis imageI)
  have "\<not> fails_next populated" and "issued populated = []" and "getDB repo background = 0"
    by (simp_all add: populated_def fails_next_def getDB_def repo_def background_def)
  with absent no_live Delete_unconditional [of repo background 5 populated] show ?thesis
    by simp
qed

subsection \<open>Deleting a user that Create has stored\<close>

lemma scan_user_eq:
  "scan_user d st cond w =
     (if fails_next w
      then (Inl ErrConn, w\<lparr>issued := issued w @ [(d, st)], faults := tl (faults w)\<rparr>)
      else case find (\<lambda>u. cond u \<and> live u) (users w) of
             None \<Rightarrow> (Inl ErrNoRows, w\<lparr>issued := issued w @ [(d, st)], faults := tl (faults w)\<rparr>)
           | Some row \<Rightarrow>
               (if fails_next (w\<lparr>faults := tl (faults w)\<rparr>) then Inl ErrConn
                else Inr (row\<lparr>Roles := roles_of_user w (ID row)\<rparr>),
                w\<lparr>issued := issued w @ [(d, st), (d, SelectRolesRelation [ID row])],
                  faults := tl (tl (faults w))\<rparr>))"
  by (simp add: scan_user_def load_roles_def issue_eq split: option.splits list.splits)

lemma FindByID_absent:
  assumes "\<not> fails_next w" and "\<forall>row \<in> set (users w). ID row = i \<longrightarrow> \<not> live row"
  shows "fst (FindByID r ctx i w) = Inr None"
proof -
  have "find (\<lambda>u. ID u = i \<and> live u) (users w) = None"
    using assms(2) by (auto simp: find_None_iff)
  with assms(1) show ?thesis
    by (simp add: FindByID_def scan_user_eq)
qed

text \<open>
  In general: on a healthy store without live rows, once \<^verbatim>\<open>Create\<close> has succeeded, \<^verbatim>\<open>FindByID\<close>
  finds no user under any id, and \<^verbatim>\<open>Delete\<close> returns \<^verbatim>\<open>nil\<close> and leaves the table of users as
  it is.
\<close>

lemma Create_then_Delete:
  assumes "fst (fst (Create r ctx user w)) = None" and "faults w = []"
    and "\<forall>row \<in> set (users w). \<not> live row"
  shows "fst (FindByID r' ctx' i (snd (Create r ctx user w))) = Inr None
    \<and> fst (Delete r' ctx' i (snd (Create r ctx user w))) = None
    \<and> users (snd (Delete r' ctx' i (snd (Create r ctx user w))))
        = users (snd (Create r ctx user w))"
proof -
  let ?w = "snd (Create r ctx user w)"
  obtain row where "users ?w = users w @ [row]" and "\<not> live row"
    using assms(1) Create_row_not_live by blast
  with assms(3) have none: "\<forall>row \<in> set (users ?w). ID row = i \<longrightarrow> \<not> live row"
    by simp
  have "faults ?w = []"
    using assms(2) by (simp add: Create_eq Let_def)
  then have healthy: "\<not> fails_next ?w"
    by (simp add: healthy_not_fails)
  from healthy none have "fst (FindByID r' ctx' i ?w) = Inr None"
    by (rule FindByID_absent)
  moreover have "fst (Delete r' ctx' i ?w) = None"
    using healthy by (simp add: Delete_eq)
  moreover have "users (snd (Delete r' ctx' i ?w)) = users ?w"
    using none by (simp add: Delete_eq soft_delete_no_live_row)
  ultimately show ?thesis by simp
qed

text \<open>
  C7 fails: on the store right after the migration, \<^verbatim>\<open>Create\<close> stores the user Ann under the
  id 1 with \<^verbatim>\<open>deleted_at\<close> \<^verbatim>\<open>NULL\<close>. \<^verbatim>\<open>FindByID\<close> of the id 1 returns the absent result \<^verbatim>\<open>(nil, nil)\<close>
  already before any deletion; \<^verbatim>\<open>Delete\<close> of the id 1 returns \<^verbatim>\<open>nil\<close> and sets no deletion
  marker: the table of users is the same after the call, the column still \<^verbatim>\<open>NULL\<close>. The
  filter \<^verbatim>\<open>deleted_at = zero time\<close> of the tag \<^verbatim>\<open>soft_delete\<close> without \<^verbatim>\<open>nullzero\<close> matches no row
  that \<^verbatim>\<open>Create\<close> has written.
\<close>

theorem Delete_after_Create_sets_no_marker:
  "fst (fst (Create repo background (new_user ''ann'' ''ann@example.com'') fresh)) = None
   \<and> users after_create
       = [\<lparr>ID = 1, Name = ''ann'', Email = ''ann@example.com'', PasswordHash = ''hash'',
           Roles = [], CreatedAt = 7, UpdatedAt = 7, DeletedAt = None\<rparr>]
   \<and> fst (FindByID repo background 1 after_create) = Inr None
   \<and> fst (Delete repo background 1 after_create) = None
   \<and> users (snd (Delete repo background 1 after_create)) = users after_create"
  by (simp add: store_defs repo_defs sample_defs)

section \<open>Roles: lookup and assignment\<close>

lemma FindRoleByName_eq:
  "FindRoleByName r ctx name w =
     (if fails_next w then Inl ErrConn else Inr (find (\<lambda>ro. Role_Name ro = name) (roles w)),
      w\<lparr>issued := issued w @ [(getDB r ctx, SelectRoleByName name)], faults := tl (faults w)\<rparr>)"
  by (simp add: FindRoleByName_def scan_role_def issue_eq split: option.splits)

lemma FindRoleByName_healthy:
  "faults w = [] \<Longrightarrow>
   FindRoleByName r ctx name w =
     (Inr (find (\<lambda>ro. Role_Name ro = name) (roles w)),
      w\<lparr>issued := issued w @ [(getDB r ctx, SelectRoleByName name)]\<rparr>)"
  by (simp add: FindRoleByName_eq healthy_not_fails)

lemma find_role_None: "name \<notin> Role_Name ` set rs \<Longrightarrow> find (\<lambda>ro. Role_Name ro = name) rs = None"
  by (auto simp: find_None_iff)

lemma find_role_name: "find (\<lambda>ro. Role_Name ro = name) rs = Some role \<Longrightarrow> Role_Name role = name"
  by (auto simp: find_Some_iff)

text \<open>
  C8: for every user id and every role name that no row of \<^verbatim>\<open>roles\<close> carries, \<^verbatim>\<open>AssignRole\<close>
  fails, with \<^verbatim>\<open>role not found\<close> whenever the store answers the lookup (and with the store's
  error when the lookup itself fails); no association row is inserted, and the only
  statement issued is the lookup: the insert is never reached.
\<close>

theorem AssignRole_unknown:
  assumes "roleName \<notin> Role_Name ` set (roles w)"
  shows "fst (AssignRole r ctx userID roleName w)
           = Some (if fails_next w then ErrConn else ErrorsNew ''role not found'')
   \<and> user_roles (snd (AssignRole r ctx userID roleName w)) = user_roles w
   \<and> issued (snd (AssignRole r ctx userID roleName w))
       = issued w @ [(getDB r ctx, SelectRoleByName roleName)]"
  using find_role_None [OF assms]
  by (simp add: AssignRole_def AssignRole_insert_def FindRoleByName_eq)

theorem AssignRole_unknown_witness:
  "''editor'' \<notin> Role_Name ` set (roles populated)
   \<and> fst (AssignRole repo background 2 ''editor'' populated) = Some (ErrorsNew ''role not found'')
   \<and> user_roles (snd (AssignRole repo background 2 ''editor'' populated)) = user_roles populated
   \<and> issued (snd (AssignRole repo background 2 ''editor'' populated))
       = [(0, SelectRoleByName ''editor'')]"
proof -
  have unknown: "''editor'' \<notin> Role_Name ` set (roles populated)"
    by (simp add: populated_def seeded_roles_def)
  have "\<not> fails_next populated" and "issued populated = []" and "getDB repo background = 0"
    by (simp_all add: populated_def fails_next_def getDB_def repo_def background_def)
  with unknown AssignRole_unknown [OF unknown, of repo background 2] show ?thesis
    by simp
qed

subsection \<open>GetUserRoles is rejected by the store\<close>

text \<open>
  The select of \<^verbatim>\<open>GetUserRoles\<close> names \<^verbatim>\<open>roles.id\<close> although the model gives the table the alias
  \<^verbatim>\<open>r\<close>: the call returns an error for every user and every store.
\<close>

lemma GetUserRoles_eq:
  "GetUserRoles r ctx uid w =
     (Inl (if fails_next w then ErrConn else ErrInvalidReference),
      w\<lparr>issued := issued w @ [(getDB r ctx, SelectRolesOfUser uid)], faults := tl (faults w)\<rparr>)"
  by (simp add: GetUserRoles_def scan_roles_of_user_def issue_eq)

lemma GetUserRoles_never_answers:
  "\<exists>err. fst (GetUserRoles r ctx uid w) = Inl err"
  by (simp add: GetUserRoles_eq)

subsection \<open>Assigning twice\<close>

lemma exec_insert_user_role_healthy:
  "faults w = [] \<Longrightarrow>
   exec_insert_user_role d uid rid t w =
     (None, w\<lparr>issued := issued w @ [(d, InsertUserRole uid rid)],
              user_roles := (if list_ex (\<lambda>ur. user_id ur = uid \<and> role_id ur = rid) (user_roles w)
                             then user_roles w
                             else user_roles w @ [\<lparr>user_id = uid, role_id = rid, assigned_at = t\<rparr>])\<rparr>)"
  by (simp add: exec_insert_user_role_def issue_healthy)

lemma no_match_if_key_absent:
  "(uid, rid) \<notin> set (map (\<lambda>ur. (user_id ur, role_id ur)) urs)
   \<Longrightarrow> filter (\<lambda>ur. user_id ur = uid \<and> role_id ur = rid) urs = []"
  by (induction urs) auto

lemma distinct_keys_count:
  "distinct (map (\<lambda>ur. (user_id ur, role_id ur)) urs)
   \<Longrightarrow> length (filter (\<lambda>ur. user_id ur = uid \<and> role_id ur = rid) urs) \<le> 1"
proof (induction urs)
  case Nil
  then show ?case by simp
next
  case (Cons a urs)
  show ?case
  proof (cases "user_id a = uid \<and> role_id a = rid")
    case True
    then have "(uid, rid) \<notin> set (map (\<lambda>ur. (user_id ur, role_id ur)) urs)"
      using Cons.prems by simp
    then have "filter (\<lambda>ur. user_id ur = uid \<and> role_id ur = rid) urs = []"
      by (rule no_match_if_key_absent)
    with True show ?thesis by simp
  next
    case False
    then show ?thesis using Cons by auto
  qed
qed

lemma insert_if_absent:
  fixes urs :: "user_roles_row list" and uid rid :: nat and t :: time
  defines "urs' \<equiv> (if list_ex (\<lambda>ur. user_id ur = uid \<and> role_id ur = rid) urs then urs
                     else urs @ [\<lparr>user_id = uid, role_id = rid, assigned_at = t\<rparr>])"
  assumes "distinct (map (\<lambda>ur. (user_id ur, role_id ur)) urs)"
  shows "distinct (map (\<lambda>ur. (user_id ur, role_id ur)) urs')"
    and "length (filter (\<lambda>ur. user_id ur = uid \<and> role_id ur = rid) urs') = 1"
proof -
  show "distinct (map (\<lambda>ur. (user_id ur, role_id ur)) urs')"
  proof (cases "list_ex (\<lambda>ur. user_id ur = uid \<and> role_id ur = rid) urs")
    case True
    then show ?thesis using assms by simp
  next
    case False
    then have "(uid, rid) \<notin> set (map (\<lambda>ur. (user_id ur, role_id ur)) urs)"
      by (auto simp: list_ex_iff)
    with False show ?thesis using assms by simp
  qed
  show "length (filter (\<lambda>ur. user_id ur = uid \<and> role_id ur = rid) urs') = 1"
  proof (cases "list_ex (\<lambda>ur. user_id ur = uid \<and> role_id ur = rid) urs")
    case True
    then have "filter (\<lambda>ur. user_id ur = uid \<and> role_id ur = rid) urs \<noteq> []"
      by (simp add: list_ex_iff filter_empty_conv)
    then have "1 \<le> length (filter (\<lambda>ur. user_id ur = uid \<and> role_id ur = rid) urs)"
      by (cases "filter (\<lambda>ur. user_id ur = uid \<and> role_id ur = rid) urs") simp_all
    moreover have "length (filter (\<lambda>ur. user_id ur = uid \<and> role_id ur = rid) urs) \<le> 1"
      using assms(2) by (rule distinct_keys_count)
    ultimately show ?thesis using True by (simp add: urs'_def)
  next
    case False
    then have "filter (\<lambda>ur. user_id ur = uid \<and> role_id ur = rid) urs = []"
      by (simp add: list_ex_iff filter_empty_conv)
    with False show ?thesis by (simp add: urs'_def)
  qed
qed

lemma AssignRole_healthy:
  assumes "faults w = []" and "find (\<lambda>ro. Role_Name ro = roleName) (roles w) = Some role"
  shows "AssignRole r ctx uid roleName w =
     (None, w\<lparr>issued := issued w @ [(getDB r ctx, SelectRoleByName roleName),
                                      (getDB r ctx, InsertUserRole uid (Role_ID role))],
              user_roles := (if list_ex (\<lambda>ur. user_id ur = uid \<and> role_id ur = Role_ID role)
                                  (user_roles w)
                             then user_roles w
                             else user_roles w @ [\<lparr>user_id = uid, role_id = Role_ID role,
                                                   assigned_at = now w\<rparr>])\<rparr>)"
  using assms
  by (simp add: AssignRole_def AssignRole_insert_def FindRoleByName_healthy
      exec_insert_user_role_healthy)

lemma AssignRole_step_assigning:
  assumes inv: "assigning role uid (s1, s2) w"
  shows "assigning role uid (fst (AssignRole_step r ctx uid (Role_Name role) s1 w), s2)
           (snd (AssignRole_step r ctx uid (Role_Name role) s1 w))
       \<and> progress (fst (AssignRole_step r ctx uid (Role_Name role) s1 w)) = min 2 (Suc (progress s1))
       \<and> roles (snd (AssignRole_step r ctx uid (Role_Name role) s1 w)) = roles w"
proof -
  have h: "faults w = []"
    and f: "find (\<lambda>ro. Role_Name ro = Role_Name role) (roles w) = Some role"
    and d: "distinct (map (\<lambda>ur. (user_id ur, role_id ur)) (user_roles w))"
    using inv by (simp_all add: assigning_def)
  consider "s1 = Start" | "s1 = Found (Inr (Some role))" | "s1 = Finished None"
    using inv by (auto simp: assigning_def)
  then show ?thesis
  proof cases
    case 1
    then show ?thesis
      using inv h f by (auto simp: assigning_def FindRoleByName_healthy)
  next
    case 2
    let ?urs' = "if list_ex (\<lambda>ur. user_id ur = uid \<and> role_id ur = Role_ID role) (user_roles w)
                 then user_roles w
                 else user_roles w @ [\<lparr>user_id = uid, role_id = Role_ID role, assigned_at = now w\<rparr>]"
    have step: "AssignRole_step r ctx uid (Role_Name role) s1 w =
        (Finished None, w\<lparr>issued := issued w @ [(getDB r ctx, InsertUserRole uid (Role_ID role))],
                          user_roles := ?urs'\<rparr>)"
      using 2 h by (simp add: AssignRole_insert_def exec_insert_user_role_healthy)
    have "distinct (map (\<lambda>ur. (user_id ur, role_id ur)) ?urs')"
      and "length (filter (\<lambda>ur. user_id ur = uid \<and> role_id ur = Role_ID role) ?urs') = 1"
      using d by (rule insert_if_absent)+
    then show ?thesis
      using inv h f 2 unfolding step by (simp add: assigning_def association_count_def)
  next
    case 3
    then show ?thesis
      using inv by (simp add: assigning_def)
  qed
qed

lemma progress_le_2: "progress s \<le> 2"
  by (cases s) simp_all

lemma assigning_swap:
  "assigning role uid (s1, s2) w \<longleftrightarrow> assigning role uid (s2, s1) w"
  by (auto simp: assigning_def)

lemma AssignRole_twice_assigning:
  "assigning role uid (s1, s2) w \<Longrightarrow>
   assigning role uid (fst (AssignRole_twice c1 c2 uid (Role_Name role) schedule (s1, s2) w))
     (snd (AssignRole_twice c1 c2 uid (Role_Name role) schedule (s1, s2) w))
   \<and> progress (fst (fst (AssignRole_twice c1 c2 uid (Role_Name role) schedule (s1, s2) w)))
       = min 2 (progress s1 + length (filter id schedule))
   \<and> progress (snd (fst (AssignRole_twice c1 c2 uid (Role_Name role) schedule (s1, s2) w)))
       = min 2 (progress s2 + length (filter Not schedule))
   \<and> roles (snd (AssignRole_twice c1 c2 uid (Role_Name role) schedule (s1, s2) w)) = roles w"
proof (induction schedule arbitrary: s1 s2 w)
  case Nil
  then show ?case
    using progress_le_2 [of s1] progress_le_2 [of s2] by simp
next
  case (Cons turn schedule)
  show ?case
  proof (cases turn)
    case True
    obtain s1' w' where st: "AssignRole_step (fst c1) (snd c1) uid (Role_Name role) s1 w = (s1', w')"
      by (cases "AssignRole_step (fst c1) (snd c1) uid (Role_Name role) s1 w")
    have i: "assigning role uid (s1', s2) w'" and p: "progress s1' = min 2 (Suc (progress s1))"
      and ro: "roles w' = roles w"
      using AssignRole_step_assigning [OF Cons.prems, of "fst c1" "snd c1"] st by simp_all
    show ?thesis
      using Cons.IH [OF i] True st p ro by simp
  next
    case False
    obtain s2' w' where st: "AssignRole_step (fst c2) (snd c2) uid (Role_Name role) s2 w = (s2', w')"
      by (cases "AssignRole_step (fst c2) (snd c2) uid (Role_Name role) s2 w")
    have "assigning role uid (s2, s1) w"
      using Cons.prems by (simp add: assigning_swap)
    from AssignRole_step_assigning [OF this, of "fst c2" "snd c2"] st
    have i: "assigning role uid (s1, s2') w'" and p: "progress s2' = min 2 (Suc (progress s2))"
      and ro: "roles w' = roles w"
      by (simp_all add: assigning_swap)
    show ?thesis
      using Cons.IH [OF i] False st p ro by simp
  qed
qed

lemma finished_if_progress_2:
  "s \<in> {Start, Found (Inr (Some role)), Finished None} \<Longrightarrow> progress s = 2 \<Longrightarrow> s = Finished None"
  by auto

lemma assigning_start:
  assumes "faults w = []" and "constraints w"
    and "find (\<lambda>ro. Role_Name ro = roleName) (roles w) = Some role"
  shows "assigning role uid (Start, Start) w"
  using assms distinct_keys_count [of "user_roles w" uid "Role_ID role"] find_role_name [OF assms(3)]
  by (simp add: assigning_def constraints_def association_count_def)

text \<open>
  The part of the idempotence that the code has. On a healthy store that satisfies its
  constraints, for every user id and every role name that exists: two calls of \<^verbatim>\<open>AssignRole\<close>
  one after the other both succeed and leave exactly one association row for the pair; the
  same holds when the two calls run at the same time, in every interleaving of their
  statements (every schedule that gives each call its two steps).
\<close>

lemma AssignRole_twice_one_row:
  assumes "faults w = []" and "constraints w"
    and "find (\<lambda>ro. Role_Name ro = roleName) (roles w) = Some role"
  shows "fst (AssignRole r ctx uid roleName w) = None
    \<and> fst (AssignRole r' ctx' uid roleName (snd (AssignRole r ctx uid roleName w))) = None
    \<and> association_count
          (snd (AssignRole r' ctx' uid roleName (snd (AssignRole r ctx uid roleName w))))
          uid (Role_ID role) = 1
    \<and> (\<forall>schedule. length (filter id schedule) = 2 \<and> length (filter Not schedule) = 2 \<longrightarrow>
          (\<exists>w'. AssignRole_twice (r, ctx) (r', ctx') uid roleName schedule (Start, Start) w
                  = ((Finished None, Finished None), w')
             \<and> association_count w' uid (Role_ID role) = 1))"
proof -
  have name: "Role_Name role = roleName"
    using assms(3) by (rule find_role_name)
  have start: "assigning role uid (Start, Start) w"
    using assms by (rule assigning_start)
  have concurrent: "\<exists>w'. AssignRole_twice (r, ctx) (r', ctx') uid roleName schedule (Start, Start) w
                  = ((Finished None, Finished None), w')
             \<and> association_count w' uid (Role_ID role) = 1"
    if two: "length (filter id schedule) = 2" "length (filter Not schedule) = 2" for schedule
  proof -
    let ?run = "AssignRole_twice (r, ctx) (r', ctx') uid (Role_Name role) schedule (Start, Start) w"
    have inv: "assigning role uid (fst ?run) (snd ?run)"
      and p1: "progress (fst (fst ?run)) = 2" and p2: "progress (snd (fst ?run)) = 2"
      using AssignRole_twice_assigning [OF start, of "(r, ctx)" "(r', ctx')" schedule] two
      by simp_all
    have s1: "fst (fst ?run) = Finished None"
      using inv p1 by (intro finished_if_progress_2 [of _ role]) (simp_all add: assigning_def)
    have s2: "snd (fst ?run) = Finished None"
      using inv p2 by (intro finished_if_progress_2 [of _ role]) (simp_all add: assigning_def)
    have run: "?run = ((Finished None, Finished None), snd ?run)"
      using s1 s2 by (simp add: prod_eq_iff)
    have c: "association_count (snd ?run) uid (Role_ID role) = 1"
      using inv s1 by (simp_all add: assigning_def)
    with run show ?thesis
      unfolding name by blast
  qed
  define w1 where "w1 = snd (AssignRole r ctx uid roleName w)"
  define w2 where "w2 = snd (AssignRole r' ctx' uid roleName w1)"
  let ?urs1 = "if list_ex (\<lambda>ur. user_id ur = uid \<and> role_id ur = Role_ID role) (user_roles w)
               then user_roles w
               else user_roles w @ [\<lparr>user_id = uid, role_id = Role_ID role, assigned_at = now w\<rparr>]"
  have a1: "AssignRole r ctx uid roleName w =
     (None, w\<lparr>issued := issued w @ [(getDB r ctx, SelectRoleByName roleName),
                                      (getDB r ctx, InsertUserRole uid (Role_ID role))],
              user_roles := ?urs1\<rparr>)"
    using assms(1,3) by (rule AssignRole_healthy)
  have keys: "distinct (map (\<lambda>ur. (user_id ur, role_id ur)) (user_roles w))"
    using assms(2) by (simp add: constraints_def)
  have d1: "distinct (map (\<lambda>ur. (user_id ur, role_id ur)) ?urs1)"
    using keys by (rule insert_if_absent)
  have h1: "faults w1 = []" and f1: "find (\<lambda>ro. Role_Name ro = roleName) (roles w1) = Some role"
    and u1: "user_roles w1 = ?urs1"
    using assms(1,3) by (simp_all add: w1_def a1)
  let ?urs2 = "if list_ex (\<lambda>ur. user_id ur = uid \<and> role_id ur = Role_ID role) (user_roles w1)
               then user_roles w1
               else user_roles w1 @ [\<lparr>user_id = uid, role_id = Role_ID role, assigned_at = now w1\<rparr>]"
  have a2: "AssignRole r' ctx' uid roleName w1 =
     (None, w1\<lparr>issued := issued w1 @ [(getDB r' ctx', SelectRoleByName roleName),
                                        (getDB r' ctx', InsertUserRole uid (Role_ID role))],
               user_roles := ?urs2\<rparr>)"
    using h1 f1 by (rule AssignRole_healthy)
  have c2: "length (filter (\<lambda>ur. user_id ur = uid \<and> role_id ur = Role_ID role) ?urs2) = 1"
    using d1 unfolding u1 by (rule insert_if_absent)
  have cnt: "association_count w2 uid (Role_ID role) = 1"
    using c2 by (simp add: w2_def a2 association_count_def)
  moreover have "fst (AssignRole r ctx uid roleName w) = None"
    by (simp add: a1)
  moreover have "fst (AssignRole r' ctx' uid roleName w1) = None"
    by (simp add: a2)
  ultimately show ?thesis
    using concurrent unfolding w2_def w1_def by blast
qed

text \<open>
  C5 fails in its last part: after \<^verbatim>\<open>Create\<close> has stored Ann under the id 1, two calls of
  \<^verbatim>\<open>AssignRole\<close> with the role \<^verbatim>\<open>admin\<close> both return \<^verbatim>\<open>nil\<close> and leave exactly one association row
  for the pair, but \<^verbatim>\<open>GetUserRoles\<close> of the id 1 then returns the store's error, not a list
  with \<^verbatim>\<open>admin\<close> in it.
\<close>

theorem AssignRole_twice_GetUserRoles_fails:
  "fst (AssignRole repo background 1 ''admin'' after_create) = None
   \<and> fst (AssignRole repo background 1 ''admin'' after_assign) = None
   \<and> association_count (snd (AssignRole repo background 1 ''admin'' after_assign)) 1 3 = 1
   \<and> fst (GetUserRoles repo background 1
            (snd (AssignRole repo background 1 ''admin'' after_assign)))
       = Inl ErrInvalidReference"
  by (simp add: store_defs repo_defs sample_defs association_count_def)

section \<open>Update: the four columns and nothing else\<close>

lemma Update_eq:
  "Update r ctx user w =
     (if fails_next w
      then (Some ErrConn, w\<lparr>issued := issued w @ [(getDB r ctx, UpdateUser (ID user))],
                             faults := tl (faults w)\<rparr>)
      else if list_ex (\<lambda>row. ID row = ID user \<and> live row) (users w)
              \<and> list_ex (\<lambda>other. \<not> (ID other = ID user \<and> live other) \<and> Email other = Email user)
                   (users w)
      then (Some ErrUniqueViolation,
            w\<lparr>issued := issued w @ [(getDB r ctx, UpdateUser (ID user))], faults := tl (faults w)\<rparr>)
      else (None, w\<lparr>issued := issued w @ [(getDB r ctx, UpdateUser (ID user))],
                     faults := tl (faults w),
                     users := map (\<lambda>row. if ID row = ID user \<and> live row
                                          then row\<lparr>Name := Name user, Email := Email user,
                                                   PasswordHash := PasswordHash user,
                                                   UpdatedAt := UpdatedAt user\<rparr>
                                          else row) (users w)\<rparr>))"
  by (simp add: Update_def exec_update_user_def issue_eq Let_def email_taken_filter)

lemma update_columns_only:
  "map without_update_columns
     (map (\<lambda>row. if c row then row\<lparr>Name := n, Email := e, PasswordHash := p, UpdatedAt := t\<rparr>
                  else row) us)
   = map without_update_columns us"
  by (induction us) (auto simp: without_update_columns_def)

lemma update_other_rows:
  "filter (\<lambda>row. ID row \<noteq> i)
     (map (\<lambda>row. if ID row = i \<and> c row
                  then row\<lparr>Name := n, Email := e, PasswordHash := p, UpdatedAt := t\<rparr>
                  else row) us)
   = filter (\<lambda>row. ID row \<noteq> i) us"
  by (induction us) auto

lemma Update_world:
  "\<exists>c. snd (Update r ctx user w) =
     w\<lparr>issued := issued w @ [(getDB r ctx, UpdateUser (ID user))],
       faults := tl (faults w),
       users := map (\<lambda>row. if ID row = ID user \<and> c row
                            then row\<lparr>Name := Name user, Email := Email user,
                                     PasswordHash := PasswordHash user,
                                     UpdatedAt := UpdatedAt user\<rparr>
                            else row) (users w)\<rparr>"
proof (cases "fst (Update r ctx user w)")
  case None
  then have "snd (Update r ctx user w) =
     w\<lparr>issued := issued w @ [(getDB r ctx, UpdateUser (ID user))],
       faults := tl (faults w),
       users := map (\<lambda>row. if ID row = ID user \<and> live row
                            then row\<lparr>Name := Name user, Email := Email user,
                                     PasswordHash := PasswordHash user,
                                     UpdatedAt := UpdatedAt user\<rparr>
                            else row) (users w)\<rparr>"
    by (auto simp: Update_eq split: if_splits)
  then show ?thesis by (rule exI [of _ live])
next
  case (Some err)
  then have "snd (Update r ctx user w) =
     w\<lparr>issued := issued w @ [(getDB r ctx, UpdateUser (ID user))],
       faults := tl (faults w),
       users := map (\<lambda>row. if ID row = ID user \<and> False
                            then row\<lparr>Name := Name user, Email := Email user,
                                     PasswordHash := PasswordHash user,
                                     UpdatedAt := UpdatedAt user\<rparr>
                            else row) (users w)\<rparr>"
    by (auto simp: Update_eq split: if_splits)
  then show ?thesis by (rule exI [of _ "\<lambda>row. False"])
qed

text \<open>
  The frame of \<^verbatim>\<open>Update\<close>: whatever the outcome, the tables of roles and associations are
  unchanged, the table of users is unchanged up to the columns \<^verbatim>\<open>name\<close>, \<^verbatim>\<open>email\<close>,
  \<^verbatim>\<open>password_hash\<close> and \<^verbatim>\<open>updated_at\<close>, and rows with another id are unchanged. When no live row
  has the id, a healthy store answers \<^verbatim>\<open>nil\<close> and no row is written at all.
\<close>

lemma Update_frame_tables:
  "roles (snd (Update r ctx user w)) = roles w
   \<and> user_roles (snd (Update r ctx user w)) = user_roles w
   \<and> map without_update_columns (users (snd (Update r ctx user w)))
       = map without_update_columns (users w)
   \<and> filter (\<lambda>row. ID row \<noteq> ID user) (users (snd (Update r ctx user w)))
       = filter (\<lambda>row. ID row \<noteq> ID user) (users w)"
proof -
  obtain c where w': "snd (Update r ctx user w) =
     w\<lparr>issued := issued w @ [(getDB r ctx, UpdateUser (ID user))],
       faults := tl (faults w),
       users := map (\<lambda>row. if ID row = ID user \<and> c row
                            then row\<lparr>Name := Name user, Email := Email user,
                                     PasswordHash := PasswordHash user,
                                     UpdatedAt := UpdatedAt user\<rparr>
                            else row) (users w)\<rparr>"
    using Update_world by blast
  have tables: "roles (snd (Update r ctx user w)) = roles w"
    "user_roles (snd (Update r ctx user w)) = user_roles w"
    by (simp_all add: w')
  have cols: "map without_update_columns (users (snd (Update r ctx user w)))
       = map without_update_columns (users w)"
    unfolding w' using update_columns_only [of "\<lambda>row. ID row = ID user \<and> c row"] by simp
  have others: "filter (\<lambda>row. ID row \<noteq> ID user) (users (snd (Update r ctx user w)))
       = filter (\<lambda>row. ID row \<noteq> ID user) (users w)"
    unfolding w' using update_other_rows [of "ID user" c] by simp
  from tables cols others show ?thesis by blast
qed

lemma Update_no_live_row:
  assumes "\<not> fails_next w" and "\<forall>row \<in> set (users w). ID row = ID user \<longrightarrow> \<not> live row"
  shows "fst (Update r ctx user w) = None \<and> users (snd (Update r ctx user w)) = users w"
proof -
  have none: "\<not> list_ex (\<lambda>row. ID row = ID user \<and> live row) (users w)"
    using assms(2) by (auto simp: list_ex_iff)
  have same: "map (\<lambda>row. if ID row = ID user \<and> live row
                          then row\<lparr>Name := Name user, Email := Email user,
                                   PasswordHash := PasswordHash user,
                                   UpdatedAt := UpdatedAt user\<rparr>
                          else row) (users w) = users w"
    by (rule map_idI) (use assms(2) in auto)
  show ?thesis
    using assms(1) none same by (simp add: Update_eq)
qed

text \<open>
  C3 fails: after \<^verbatim>\<open>Create\<close> has stored Ann under the id 1 and \<^verbatim>\<open>AssignRole\<close> has given her the
  role \<^verbatim>\<open>admin\<close>, \<^verbatim>\<open>Update\<close> with a new email returns \<^verbatim>\<open>nil\<close> and writes none of the four
  columns: the table of users is the same after the call, with the old email. \<^verbatim>\<open>GetUserRoles\<close>
  of the id 1 returns the store's error before the call and after it, so no role set can be
  compared.
\<close>

theorem Update_after_Create_writes_nothing:
  "users after_assign
     = [\<lparr>ID = 1, Name = ''ann'', Email = ''ann@example.com'', PasswordHash = ''hash'',
         Roles = [], CreatedAt = 7, UpdatedAt = 7, DeletedAt = None\<rparr>]
   \<and> user_roles after_assign = [\<lparr>user_id = 1, role_id = 3, assigned_at = 7\<rparr>]
   \<and> fst (GetUserRoles repo background 1 after_assign) = Inl ErrInvalidReference
   \<and> fst (Update repo background
            \<lparr>ID = 1, Name = ''ann'', Email = ''ann@new.example'', PasswordHash = ''hash'',
             Roles = [], CreatedAt = 7, UpdatedAt = 11, DeletedAt = None\<rparr> after_assign) = None
   \<and> users (snd (Update repo background
            \<lparr>ID = 1, Name = ''ann'', Email = ''ann@new.example'', PasswordHash = ''hash'',
             Roles = [], CreatedAt = 7, UpdatedAt = 11, DeletedAt = None\<rparr> after_assign))
       = users after_assign
   \<and> fst (GetUserRoles repo background 1 (snd (Update repo background
            \<lparr>ID = 1, Name = ''ann'', Email = ''ann@new.example'', PasswordHash = ''hash'',
             Roles = [], CreatedAt = 7, UpdatedAt = 11, DeletedAt = None\<rparr> after_assign)))
       = Inl ErrInvalidReference"
  by (simp add: store_defs repo_defs sample_defs)

section \<open>ListAllUsers\<close>

lemma index_validSorts:
  "index_map validSorts s \<longleftrightarrow> s \<in> {''name'', ''email'', ''created_at'', ''updated_at''}"
  by (simp add: index_map_def validSorts_def)

lemma query_rows_updates [simp]:
  "query_rows (w\<lparr>issued := q\<rparr>) = query_rows w"
  "query_rows (w\<lparr>faults := fs\<rparr>) = query_rows w"
  by (simp_all add: query_rows_def)

lemma set_query_rows:
  "set (query_rows w) = {u \<in> set (users w). live u}"
  by (simp add: query_rows_def)

lemma names_aliased_build_query:
  "names_aliased_table (build_query filters) \<longleftrightarrow> Role filters \<noteq> [] \<or> Search filters \<noteq> []"
  by (simp add: names_aliased_table_def build_query_def)

lemma exec_count_distinct_ids_eq:
  "exec_count_distinct_ids d q w =
     (if fails_next w then Inl ErrConn
      else if names_aliased_table q then Inl ErrInvalidReference
      else Inr (int (length (remdups (map ID (query_rows w))))),
      w\<lparr>issued := issued w @ [(d, CountDistinctUserIDs)], faults := tl (faults w)\<rparr>)"
  by (simp add: exec_count_distinct_ids_def issue_eq)




subsection \<open>Filters\<close>

text \<open>
  With a role filter or a search text the count query names the aliased table \<^verbatim>\<open>users\<close>:
  the call returns the error of the store after that one statement, for every store.
  Without them, on a healthy store whose \<^verbatim>\<open>users.id\<close> is a key and with a valid sort field
  and order, the call succeeds and the total is the number of distinct ids of the live
  users.
\<close>

lemma ListAllUsers_filter_rejected:
  assumes "Role filters \<noteq> [] \<or> Search filters \<noteq> []"
  shows "ListAllUsers r ctx filters page perPage w =
     (Inl (if fails_next w then ErrConn else ErrInvalidReference),
      w\<lparr>issued := issued w @ [(getDB r ctx, CountDistinctUserIDs)], faults := tl (faults w)\<rparr>)"
  using assms
  by (simp add: ListAllUsers_def exec_count_distinct_ids_eq names_aliased_build_query)

lemma load_roles_eq:
  "load_roles d us w =
     (if us = [] then (Inr [], w)
      else (if fails_next w then Inl ErrConn
            else Inr (map (\<lambda>u. u\<lparr>Roles := roles_of_user w (ID u)\<rparr>) us),
            w\<lparr>issued := issued w @ [(d, SelectRolesRelation (map ID us))],
              faults := tl (faults w)\<rparr>))"
  by (simp add: load_roles_def issue_eq)

lemma load_roles_healthy:
  assumes "faults w = []"
  shows "\<exists>us' w'. load_roles d us w = (Inr us', w') \<and> faults w' = []
           \<and> users w' = users w \<and> roles w' = roles w \<and> user_roles w' = user_roles w"
  using assms by (simp add: load_roles_def issue_healthy)

lemma ScanAndCount_healthy:
  assumes "faults w = []" and "\<not> names_aliased_table q"
  shows "\<exists>us w'. ScanAndCount d q column direction lim off w
           = ((us, int (length (remdups (query_rows w))), None), w')"
proof -
  let ?w1 = "w\<lparr>issued := issued w @ [(d, SelectUsersPage)]\<rparr>"
  let ?page = "limit_rows lim (offset_rows off
                 (order_users column direction (remdups (query_rows ?w1))))"
  have "faults ?w1 = []"
    using assms by simp
  then obtain us' w2 where l: "load_roles d ?page ?w1 = (Inr us', w2)" and f: "faults w2 = []"
    and t: "users w2 = users ?w1"
    using load_roles_healthy by blast
  have q: "query_rows (w2\<lparr>issued := issued w2 @ [(d, CountUsersPage)]\<rparr>) = query_rows w"
    using t by (simp add: query_rows_def)
  show ?thesis
    using assms l f q by (simp add: ScanAndCount_def issue_healthy)
qed

lemma ListAllUsers_unfiltered_total:
  assumes "faults w = []" and "distinct (map ID (users w))"
    and "Role filters = []" and "Search filters = []"
    and "Sort filters \<in> {''name'', ''email'', ''created_at'', ''updated_at''}"
    and "Order filters \<in> {''asc'', ''desc''}"
  shows "\<exists>us. fst (ListAllUsers r ctx filters page perPage w) =
           Inr (us, int (card (ID ` {u \<in> set (users w). live u})))"
proof -
  let ?w1 = "w\<lparr>issued := issued w @ [(getDB r ctx, CountDistinctUserIDs)], faults := tl (faults w)\<rparr>"
  have plain: "\<not> names_aliased_table (build_query filters)"
    using assms(3,4) by (simp add: names_aliased_build_query)
  have "faults ?w1 = []"
    using assms(1) by simp
  then obtain us w' where s: "ScanAndCount (getDB r ctx) (build_query filters) (Sort filters)
        (Order filters) perPage (wrap64 ((page - 1) * perPage)) ?w1
      = ((us, int (length (remdups (query_rows ?w1))), None), w')"
    using plain ScanAndCount_healthy by blast
  have res: "fst (ListAllUsers r ctx filters page perPage w)
      = Inr (us, int (length (remdups (query_rows w))))"
    using assms(1,5,6) plain s
    by (simp add: ListAllUsers_def exec_count_distinct_ids_eq index_validSorts healthy_not_fails)
  have "inj_on ID (set (users w))"
    using assms(2) by (simp add: distinct_map)
  then have "inj_on ID (set (query_rows w))"
    by (rule inj_on_subset) (auto simp: set_query_rows)
  then have "card (ID ` set (query_rows w)) = length (remdups (query_rows w))"
    by (simp add: card_image length_remdups_card_conv)
  with res show ?thesis
    by (simp add: set_query_rows)
qed

text \<open>
  C4 fails: on a store where Ann holds the roles \<^verbatim>\<open>admin\<close> and \<^verbatim>\<open>moderator\<close>, \<^verbatim>\<open>ListAllUsers\<close>
  with the role filter \<^verbatim>\<open>admin\<close> and a valid sort field and order returns the store's error
  after the count query: no total is returned, so Ann is not counted once.
\<close>

theorem ListAllUsers_role_filter_rejected:
  "map Role_Name (roles_of_user populated 1) = [''admin'', ''moderator'']
   \<and> fst (ListAllUsers repo background
            \<lparr>Role = ''admin'', Search = [], Sort = ''name'', Order = ''asc''\<rparr> 1 10 populated)
       = Inl ErrInvalidReference
   \<and> issued (snd (ListAllUsers repo background
                    \<lparr>Role = ''admin'', Search = [], Sort = ''name'', Order = ''asc''\<rparr> 1 10 populated))
       = [(0, CountDistinctUserIDs)]"
  by (simp add: store_defs repo_defs sample_defs)

text \<open>
  C6 fails on the example of the specification: the search text \<^verbatim>\<open>50%\<close> is escaped as the
  code says, into the pattern \<^verbatim>\<open>%50\%%\<close>, but on a store with the users \<^verbatim>\<open>50%Off\<close> and \<^verbatim>\<open>50X\<close>
  \<^verbatim>\<open>ListAllUsers\<close> with this search text returns the store's error after the count query:
  the user \<^verbatim>\<open>50%Off\<close> is not matched.
\<close>

theorem ListAllUsers_search_rejected:
  "map Name (users discount_store) = [''50%Off'', ''50X'']
   \<and> searchPattern ''50%'' = [CHR ''%'', CHR ''5'', CHR ''0'', CHR 0x5C, CHR ''%'', CHR ''%'']
   \<and> fst (ListAllUsers repo background
            \<lparr>Role = [], Search = ''50%'', Sort = ''name'', Order = ''asc''\<rparr> 1 10 discount_store)
       = Inl ErrInvalidReference
   \<and> issued (snd (ListAllUsers repo background
                    \<lparr>Role = [], Search = ''50%'', Sort = ''name'', Order = ''asc''\<rparr> 1 10
                    discount_store))
       = [(0, CountDistinctUserIDs)]"
  by (simp add: store_defs repo_defs sample_defs)

section \<open>The constraints are kept\<close>

text \<open>
  Every operation that writes leaves the declared constraints in force, whatever the store
  does: the hypothesis \<open>constraints\<close> of the properties above holds in every store reached
  from the migration through the repository.
\<close>

lemma constraints_updates [simp]:
  "constraints (w\<lparr>issued := q\<rparr>) = constraints w"
  "constraints (w\<lparr>faults := fs\<rparr>) = constraints w"
  "constraints (w\<lparr>open_txs := txs\<rparr>) = constraints w"
  "constraints (w\<lparr>users_id_seq := n\<rparr>) = constraints w"
  by (simp_all add: constraints_def)

lemma constraints_fresh: "constraints fresh"
  by (simp add: constraints_def fresh_def seeded_roles_def)

lemma soft_delete_keys:
  "map ID (map (\<lambda>row. if ID row = i \<and> live row then row\<lparr>DeletedAt := Some t\<rparr> else row) us) = map ID us"
  "map Email (map (\<lambda>row. if ID row = i \<and> live row then row\<lparr>DeletedAt := Some t\<rparr> else row) us) = map Email us"
  by (induction us) simp_all

lemma Delete_constraints:
  "constraints w \<Longrightarrow> constraints (snd (Delete r ctx i w))"
  unfolding Delete_eq by (simp add: constraints_def soft_delete_keys del: map_map)

lemma exec_insert_user_role_tables:
  "\<exists>t'. snd (exec_insert_user_role d uid rid t w) =
     w\<lparr>issued := issued w @ [(d, InsertUserRole uid rid)], faults := tl (faults w),
       user_roles := (if t' \<and> \<not> list_ex (\<lambda>ur. user_id ur = uid \<and> role_id ur = rid) (user_roles w)
                      then user_roles w @ [\<lparr>user_id = uid, role_id = rid, assigned_at = t\<rparr>]
                      else user_roles w)\<rparr>"
proof (cases "fails_next w")
  case True
  then have "snd (exec_insert_user_role d uid rid t w) =
     w\<lparr>issued := issued w @ [(d, InsertUserRole uid rid)], faults := tl (faults w),
       user_roles := (if False \<and> \<not> list_ex (\<lambda>ur. user_id ur = uid \<and> role_id ur = rid) (user_roles w)
                      then user_roles w @ [\<lparr>user_id = uid, role_id = rid, assigned_at = t\<rparr>]
                      else user_roles w)\<rparr>"
    by (simp add: exec_insert_user_role_def issue_eq)
  then show ?thesis by (rule exI [of _ False])
next
  case False
  then have "snd (exec_insert_user_role d uid rid t w) =
     w\<lparr>issued := issued w @ [(d, InsertUserRole uid rid)], faults := tl (faults w),
       user_roles := (if True \<and> \<not> list_ex (\<lambda>ur. user_id ur = uid \<and> role_id ur = rid) (user_roles w)
                      then user_roles w @ [\<lparr>user_id = uid, role_id = rid, assigned_at = t\<rparr>]
                      else user_roles w)\<rparr>"
    by (simp add: exec_insert_user_role_def issue_eq)
  then show ?thesis by (rule exI [of _ True])
qed

lemma exec_insert_user_role_constraints:
  assumes "constraints w"
  shows "constraints (snd (exec_insert_user_role d uid rid t w))"
proof -
  obtain t' where w': "snd (exec_insert_user_role d uid rid t w) =
     w\<lparr>issued := issued w @ [(d, InsertUserRole uid rid)], faults := tl (faults w),
       user_roles := (if t' \<and> \<not> list_ex (\<lambda>ur. user_id ur = uid \<and> role_id ur = rid) (user_roles w)
                      then user_roles w @ [\<lparr>user_id = uid, role_id = rid, assigned_at = t\<rparr>]
                      else user_roles w)\<rparr>"
    using exec_insert_user_role_tables by blast
  have keys: "distinct (map (\<lambda>ur. (user_id ur, role_id ur)) (user_roles w))"
    using assms by (simp add: constraints_def)
  have "distinct (map (\<lambda>ur. (user_id ur, role_id ur))
          (if list_ex (\<lambda>ur. user_id ur = uid \<and> role_id ur = rid) (user_roles w) then user_roles w
           else user_roles w @ [\<lparr>user_id = uid, role_id = rid, assigned_at = t\<rparr>]))"
    using keys by (rule insert_if_absent)
  then have "distinct (map (\<lambda>ur. (user_id ur, role_id ur))
          (if t' \<and> \<not> list_ex (\<lambda>ur. user_id ur = uid \<and> role_id ur = rid) (user_roles w)
                      then user_roles w @ [\<lparr>user_id = uid, role_id = rid, assigned_at = t\<rparr>]
                      else user_roles w))"
    using keys by (simp split: if_splits)
  then show ?thesis
    using assms unfolding w' by (simp add: constraints_def)
qed

lemma AssignRole_constraints:
  assumes "constraints w"
  shows "constraints (snd (AssignRole r ctx uid roleName w))"
proof -
  let ?w1 = "w\<lparr>issued := issued w @ [(getDB r ctx, SelectRoleByName roleName)], faults := tl (faults w)\<rparr>"
  have c1: "constraints ?w1"
    using assms by simp
  show ?thesis
    using c1 exec_insert_user_role_constraints [OF c1]
    by (simp add: AssignRole_def AssignRole_insert_def FindRoleByName_eq split: option.splits)
qed

lemma RemoveRole_constraints:
  assumes "constraints w"
  shows "constraints (snd (RemoveRole r ctx uid roleName w))"
  using assms
  by (simp add: RemoveRole_def FindRoleByName_eq exec_delete_user_role_def issue_eq
      constraints_def distinct_map_filter split: option.splits bool.splits)

lemma Create_constraints:
  assumes "constraints w"
  shows "constraints (snd (Create r ctx user w))"
proof -
  let ?row = "user\<lparr>ID := (if ID user = 0 then Suc (users_id_seq w) else ID user),
                     Roles := [],
                     CreatedAt := (if CreatedAt user = 0 then now w else CreatedAt user),
                     UpdatedAt := (if UpdatedAt user = 0 then now w else UpdatedAt user),
                     DeletedAt := (if DeletedAt user = Some 0 then None else DeletedAt user)\<rparr>"
  consider "fails_next w"
    | "\<not> fails_next w" "list_ex (\<lambda>old. ID old = ID ?row \<or> Email old = Email ?row) (users w)"
    | "\<not> fails_next w" "\<not> list_ex (\<lambda>old. ID old = ID ?row \<or> Email old = Email ?row) (users w)"
    by blast
  then show ?thesis
  proof cases
    case 1
    with assms show ?thesis
      by (simp add: Create_eq Let_def)
  next
    case 2
    with assms show ?thesis
      by (simp add: Create_eq Let_def)
  next
    case 3
    then have "ID ?row \<notin> ID ` set (users w)" and "Email ?row \<notin> Email ` set (users w)"
      by (auto simp: list_ex_iff)
    then have "distinct (map ID (users w @ [?row]))" and "distinct (map Email (users w @ [?row]))"
      using assms by (simp_all add: constraints_def)
    with 3 assms show ?thesis
      by (simp add: Create_eq Let_def constraints_def)
  qed
qed

lemma update_keeps_ids:
  "map ID (map (\<lambda>row. if c row then row\<lparr>Name := n, Email := e, PasswordHash := p, UpdatedAt := t\<rparr>
                        else row) us) = map ID us"
  by (induction us) simp_all

lemma update_emails:
  "set (map Email (map (\<lambda>row. if c row
                               then row\<lparr>Name := n, Email := e, PasswordHash := p, UpdatedAt := t\<rparr>
                               else row) us))
   \<subseteq> (if \<exists>row \<in> set us. c row then {e} else {}) \<union> Email ` {row \<in> set us. \<not> c row}"
  by (induction us) (auto split: if_splits)

lemma update_distinct_emails:
  assumes "distinct (map ID us)" and "distinct (map Email us)"
    and "\<forall>other \<in> set us. \<not> (ID other = i \<and> live other) \<longrightarrow> Email other \<noteq> e"
  shows "distinct (map Email (map (\<lambda>row. if ID row = i \<and> live row
                               then row\<lparr>Name := n, Email := e, PasswordHash := p, UpdatedAt := t\<rparr>
                               else row) us))"
  using assms
proof (induction us)
  case Nil
  then show ?case by simp
next
  case (Cons a us)
  let ?upd = "\<lambda>row. if ID row = i \<and> live row
                then row\<lparr>Name := n, Email := e, PasswordHash := p, UpdatedAt := t\<rparr> else row"
  have IH: "distinct (map Email (map ?upd us))"
    using Cons by simp
  have rest: "set (map Email (map ?upd us))
      \<subseteq> (if \<exists>row \<in> set us. ID row = i \<and> live row then {e} else {})
          \<union> Email ` {row \<in> set us. \<not> (ID row = i \<and> live row)}"
    by (rule update_emails)
  have "Email (?upd a) \<notin> set (map Email (map ?upd us))"
  proof (cases "ID a = i \<and> live a")
    case True
    then have "i \<notin> ID ` set us"
      using Cons.prems(1) by simp
    then have "\<not> (\<exists>row \<in> set us. ID row = i \<and> live row)"
      by (metis imageI)
    moreover have "e \<notin> Email ` {row \<in> set us. \<not> (ID row = i \<and> live row)}"
      using Cons.prems(3) by auto
    ultimately show ?thesis
      using rest True by auto
  next
    case False
    then have "Email a \<noteq> e"
      using Cons.prems(3) by auto
    moreover have "Email a \<notin> Email ` set us"
      using Cons.prems(2) by auto
    ultimately show ?thesis
      using rest False by (auto split: if_splits)
  qed
  with IH show ?case by simp
qed

lemma Update_constraints:
  assumes "constraints w"
  shows "constraints (snd (Update r ctx user w))"
proof (cases "fst (Update r ctx user w)")
  case (Some err)
  then have "snd (Update r ctx user w)
      = w\<lparr>issued := issued w @ [(getDB r ctx, UpdateUser (ID user))], faults := tl (faults w)\<rparr>"
    by (auto simp: Update_eq split: if_splits)
  with assms show ?thesis by simp
next
  case None
  let ?upd = "\<lambda>row. if ID row = ID user \<and> live row
                then row\<lparr>Name := Name user, Email := Email user,
                         PasswordHash := PasswordHash user, UpdatedAt := UpdatedAt user\<rparr>
                else row"
  from None have w': "snd (Update r ctx user w)
      = w\<lparr>issued := issued w @ [(getDB r ctx, UpdateUser (ID user))], faults := tl (faults w),
          users := map ?upd (users w)\<rparr>"
    and free: "\<not> (list_ex (\<lambda>row. ID row = ID user \<and> live row) (users w)
              \<and> list_ex (\<lambda>other. \<not> (ID other = ID user \<and> live other) \<and> Email other = Email user)
                   (users w))"
    by (auto simp: Update_eq split: if_splits)
  have emails: "distinct (map Email (map ?upd (users w)))"
  proof (cases "list_ex (\<lambda>row. ID row = ID user \<and> live row) (users w)")
    case True
    with free have "\<forall>other \<in> set (users w).
        \<not> (ID other = ID user \<and> live other) \<longrightarrow> Email other \<noteq> Email user"
      by (auto simp: list_ex_iff)
    with assms show ?thesis
      by (intro update_distinct_emails) (simp_all add: constraints_def)
  next
    case False
    then have "map ?upd (users w) = users w"
      by (intro map_idI) (auto simp: list_ex_iff)
    with assms show ?thesis
      by (simp add: constraints_def)
  qed
  have "map ID (map ?upd (users w)) = map ID (users w)"
    by (rule update_keeps_ids)
  with emails assms show ?thesis
    unfolding w' by (simp add: constraints_def del: map_map)
qed

lemma BeginTx_eq:
  "BeginTx d w =
     (if fails_next w
      then ((TxValue 0, Some ErrConn),
            w\<lparr>issued := issued w @ [(d, Begin)], faults := tl (faults w)\<rparr>)
      else ((TxValue (Suc (length (open_txs w))), None),
            w\<lparr>issued := issued w @ [(d, Begin)], faults := tl (faults w),
              open_txs := open_txs w @ [Suc (length (open_txs w))]\<rparr>))"
  by (simp add: BeginTx_def issue_eq)

lemma BeginTx_value: "\<exists>n. fst (fst (BeginTx d w)) = TxValue n"
  by (simp add: BeginTx_eq)

lemma CreateAndAssignRole_constraints:
  assumes "constraints w"
  shows "constraints (snd (CreateAndAssignRole r ctx user roleName w))"
proof -
  obtain tx err w1 where b: "BeginTx (getDB r ctx) w = ((tx, err), w1)"
    by (metis surj_pair)
  have c1: "constraints w1"
    using assms b by (auto simp: BeginTx_eq split: if_splits)
  obtain res user' w2 where c: "Create r (WithValue ctx tx) user w1 = ((res, user'), w2)"
    by (metis surj_pair)
  have c2: "constraints w2"
    using Create_constraints [OF c1, of r "WithValue ctx tx" user] c by simp
  show ?thesis
  proof (cases res)
    case None
    then show ?thesis
      using b c AssignRole_constraints [OF c2, of r "WithValue ctx tx" "ID user'" roleName]
      by (auto simp: CreateAndAssignRole_def split: prod.splits)
  next
    case (Some e)
    then show ?thesis
      using b c c2 by (simp add: CreateAndAssignRole_def)
  qed
qed

section \<open>CreateAndAssignRole\<close>

text \<open>
  In general: on a healthy store, with a new user whose generated id and whose email are
  free and a role name that no role carries, the composite returns \<^verbatim>\<open>role not found\<close>, the
  table of users has the new row, and the transaction that was begun stays open.
\<close>

lemma CreateAndAssignRole_role_missing:
  assumes "faults w = []" and "roleName \<notin> Role_Name ` set (roles w)"
    and "ID user = 0" and "Suc (users_id_seq w) \<notin> ID ` set (users w)"
    and "Email user \<notin> Email ` set (users w)"
  shows "fst (fst (CreateAndAssignRole r ctx user roleName w)) = Some (ErrorsNew ''role not found'')
    \<and> users (snd (CreateAndAssignRole r ctx user roleName w))
        = users w @ [user\<lparr>ID := Suc (users_id_seq w), Roles := [],
                          CreatedAt := (if CreatedAt user = 0 then now w else CreatedAt user),
                          UpdatedAt := (if UpdatedAt user = 0 then now w else UpdatedAt user),
                          DeletedAt := (if DeletedAt user = Some 0 then None else DeletedAt user)\<rparr>]
    \<and> user_roles (snd (CreateAndAssignRole r ctx user roleName w)) = user_roles w
    \<and> open_txs (snd (CreateAndAssignRole r ctx user roleName w))
        = open_txs w @ [Suc (length (open_txs w))]"
proof -
  have free: "\<not> list_ex (\<lambda>old. ID old = Suc (users_id_seq w) \<or> Email old = Email user) (users w)"
    using assms(4,5) unfolding list_ex_iff by (metis imageI)
  have none: "find (\<lambda>ro. Role_Name ro = roleName) (roles w) = None"
    using assms(2) by (rule find_role_None)
  show ?thesis
    using assms(1,3) free none
    by (simp add: CreateAndAssignRole_def BeginTx_eq Create_eq AssignRole_def AssignRole_insert_def
        FindRoleByName_eq Let_def fails_next_def)
qed

text \<open>
  C1 fails: on the store right after the migration, creating the user \<^verbatim>\<open>eve\<close> and assigning
  the unknown role \<^verbatim>\<open>editor\<close> returns \<^verbatim>\<open>role not found\<close> and leaves the new row of \<^verbatim>\<open>eve\<close> in
  \<^verbatim>\<open>users\<close> without an association row. The statements were issued on the handle of the
  repository, not inside the transaction, and the transaction that was begun is still open.
\<close>

theorem CreateAndAssignRole_leaves_user_behind:
  "fst (fst (CreateAndAssignRole repo background (new_user ''eve'' ''eve@example.com'') ''editor'' fresh))
     = Some (ErrorsNew ''role not found'')
   \<and> users (snd (CreateAndAssignRole repo background (new_user ''eve'' ''eve@example.com'') ''editor'' fresh))
     = [\<lparr>ID = 1, Name = ''eve'', Email = ''eve@example.com'', PasswordHash = ''hash'', Roles = [],
         CreatedAt = 7, UpdatedAt = 7, DeletedAt = None\<rparr>]
   \<and> user_roles (snd (CreateAndAssignRole repo background (new_user ''eve'' ''eve@example.com'') ''editor'' fresh))
     = []
   \<and> issued (snd (CreateAndAssignRole repo background (new_user ''eve'' ''eve@example.com'') ''editor'' fresh))
     = [(0, Begin), (0, InsertUser), (0, SelectRoleByName ''editor'')]
   \<and> open_txs (snd (CreateAndAssignRole repo background (new_user ''eve'' ''eve@example.com'') ''editor'' fresh))
     = [1]"
  by (simp add: store_defs repo_defs sample_defs)

end
